theory Spec2Isabelle
  imports Complex_Main "HOL-Library.Monad_Syntax"
begin

section \<open>Common ground: exceptions, outcomes, indexing\<close>

text \<open>
  The Python exceptions that the modelled code can raise, in its own subscripts and
  attribute accesses and inside the calls it makes into numpy and matplotlib.
\<close>

datatype py_error = IndexError | TypeError | AttributeError | ValueError

text \<open>
  A method of an object either returns, leaving the object in a new state (\<open>Inr\<close>), or
  raises, and then the object stays in the state it had reached when the exception left
  the method (\<open>Inl\<close>, with the exception).
\<close>

type_synonym 's outcome = "(py_error \<times> 's) + 's"

definition state_after :: "'s outcome \<Rightarrow> 's" where
  "state_after r = (case r of Inl (e, s) \<Rightarrow> s | Inr s \<Rightarrow> s)"

text \<open>Python's \<open>xs[i]\<close> for an index \<open>i \<ge> 0\<close>; \<open>None\<close> is the IndexError.\<close>

definition nth_opt :: "'a list \<Rightarrow> nat \<Rightarrow> 'a option" where
  "nth_opt xs i = (if i < length xs then Some (xs ! i) else None)"

text \<open>
  \<open>np.mod\<close> on non-negative integers. numpy yields 0 (and a warning) for a zero
  divisor, whereas HOL's \<open>a mod 0\<close> is \<open>a\<close>.
\<close>

definition np_mod :: "nat \<Rightarrow> nat \<Rightarrow> nat" where
  "np_mod a b = (if b = 0 then 0 else a mod b)"

text \<open>An object reference: the index of the object in the store of its owner.\<close>

type_synonym ref = nat

section \<open>dataplotter.py: class myPlot\<close>

text \<open>
  Python floats are idealised as reals throughout.  A \<open>Line2D\<close> carries what the
  constructor call of the source hands to it; the axes record what the source asks of
  them (labels, title, grid, the registered lines, the legend handles).
\<close>

record Line2D =
  xdata :: "real list"
  ydata :: "real list"
  color :: string
  ls :: string
  label :: "string option"

record Axes =
  ax_ylabel :: string
  ax_xlabel :: string
  ax_title :: string
  ax_grid :: bool
  ax_lines :: "ref list"
  ax_legend :: "ref list option"

record myPlot =
  legend :: "string list option"
  ax :: Axes
  colors :: "string list"
  line_styles :: "string list"
  line :: "ref list"
  init :: bool
  objs :: "Line2D list"

text \<open>
  \<open>objs\<close> is the store of the \<open>Line2D\<close> objects this panel has created; \<open>line\<close> and
  the axes hold references into it, so that \<open>self.line[i]\<close> and the line registered with
  the axes are one object.
\<close>

definition palette_colors :: "string list" where
  "palette_colors = [''b'', ''g'', ''r'', ''c'', ''m'', ''y'', ''k'']"

definition palette_styles :: "string list" where
  "palette_styles = [''-'', ''-'', ''--'', ''-.'', '':'']"

definition myPlot_init ::
  "Axes \<Rightarrow> string \<Rightarrow> string \<Rightarrow> string \<Rightarrow> string list option \<Rightarrow> myPlot" where
  "myPlot_init a xlabel ylabel title lg =
     \<lparr>legend = lg,
      ax = a\<lparr>ax_ylabel := ylabel, ax_xlabel := xlabel, ax_title := title, ax_grid := True\<rparr>,
      colors = palette_colors,
      line_styles = palette_styles,
      line = [],
      init = True,
      objs = []\<rparr>"

text \<open>
  The arguments of the \<open>Line2D(...)\<close> call of line 180, evaluated left to right; any
  of the four subscripts may raise IndexError, and none of them changes the panel.
\<close>

definition new_Line2D :: "real list \<Rightarrow> real list list \<Rightarrow> nat \<Rightarrow> myPlot \<Rightarrow> Line2D option" where
  "new_Line2D time data i p =
     do {
       y \<leftarrow> nth_opt data i;
       c \<leftarrow> nth_opt (colors p) (np_mod i (length (colors p)));
       s \<leftarrow> nth_opt (line_styles p) (np_mod i (length (line_styles p)));
       lb \<leftarrow> (case legend p of
               None \<Rightarrow> Some None
             | Some lg \<Rightarrow> map_option Some (nth_opt lg i));
       Some \<lparr>xdata = time, ydata = y, color = c, ls = s, label = lb\<rparr>
     }"

text \<open>
  matplotlib pairs the x and y data of a line when it first needs the path of the line,
  with numpy's broadcasting: the two lists must have the same length, or one of them the
  length 1; otherwise \<open>np.broadcast_arrays\<close> raises ValueError.  A \<open>Line2D\<close> is
  created, and its data are set, without this check.
\<close>

definition broadcastable :: "nat \<Rightarrow> nat \<Rightarrow> bool" where
  "broadcastable m n = (m = n \<or> m = 1 \<or> n = 1)"

definition line_ok :: "Line2D \<Rightarrow> bool" where
  "line_ok l = broadcastable (length (xdata l)) (length (ydata l))"

text \<open>
  \<open>self.ax.add_line(l)\<close> computes the limits of the line, hence its path, before it
  registers the line with the axes.  A reference outside the store stands for no line of
  this panel and is taken to be in order, here and in \<open>relim\<close>.
\<close>

definition add_line :: "ref \<Rightarrow> myPlot \<Rightarrow> myPlot outcome" where
  "add_line r p =
     (if (case nth_opt (objs p) r of Some l \<Rightarrow> line_ok l | None \<Rightarrow> True)
      then Inr (p\<lparr>ax := (ax p)\<lparr>ax_lines := ax_lines (ax p) @ [r]\<rparr>\<rparr>)
      else Inl (ValueError, p))"

text \<open>
  \<open>self.ax.relim()\<close> computes the limits of every line registered with the axes, and
  raises where one of them has data that do not pair; \<open>self.ax.autoscale()\<close> after it
  only asks for a new view.
\<close>

definition relim :: "myPlot \<Rightarrow> myPlot outcome" where
  "relim p =
     (if \<forall>r \<in> set (ax_lines (ax p)).
           (case nth_opt (objs p) r of Some l \<Rightarrow> line_ok l | None \<Rightarrow> True)
      then Inr p
      else Inl (ValueError, p))"

text \<open>One pass of the initialisation loop (lines 180 to 185).\<close>

definition init_step :: "real list \<Rightarrow> real list list \<Rightarrow> nat \<Rightarrow> myPlot \<Rightarrow> myPlot outcome" where
  "init_step time data i p =
     (case new_Line2D time data i p of
        None \<Rightarrow> Inl (IndexError, p)
      | Some l \<Rightarrow>
          let p1 = p\<lparr>objs := objs p @ [l], line := line p @ [length (objs p)]\<rparr>
          in (case nth_opt (line p1) i of
                None \<Rightarrow> Inl (IndexError, p1)
              | Some r \<Rightarrow> add_line r p1))"

fun init_loop :: "real list \<Rightarrow> real list list \<Rightarrow> nat list \<Rightarrow> myPlot \<Rightarrow> myPlot outcome" where
  "init_loop time data [] p = Inr p"
| "init_loop time data (i # is) p =
     (case init_step time data i p of
        Inl e \<Rightarrow> Inl e
      | Inr p' \<Rightarrow> init_loop time data is p')"

text \<open>
  One pass of the loop of lines 192 to 194: \<open>set_xdata\<close> happens before the subscript
  \<open>data[i]\<close> is evaluated.
\<close>

definition set_step :: "real list \<Rightarrow> real list list \<Rightarrow> nat \<Rightarrow> myPlot \<Rightarrow> myPlot outcome" where
  "set_step time data i p =
     (case nth_opt (line p) i of
        None \<Rightarrow> Inl (IndexError, p)
      | Some r \<Rightarrow>
          let p1 = p\<lparr>objs := (objs p)[r := (objs p ! r)\<lparr>xdata := time\<rparr>]\<rparr>
          in (case nth_opt data i of
                None \<Rightarrow> Inl (IndexError, p1)
              | Some y \<Rightarrow> Inr (p1\<lparr>objs := (objs p1)[r := (objs p1 ! r)\<lparr>ydata := y\<rparr>]\<rparr>)))"

fun set_loop :: "real list \<Rightarrow> real list list \<Rightarrow> nat list \<Rightarrow> myPlot \<Rightarrow> myPlot outcome" where
  "set_loop time data [] p = Inr p"
| "set_loop time data (i # is) p =
     (case set_step time data i p of
        Inl e \<Rightarrow> Inl e
      | Inr p' \<Rightarrow> set_loop time data is p')"

definition myPlot_update :: "real list \<Rightarrow> real list list \<Rightarrow> myPlot \<Rightarrow> myPlot outcome" where
  "myPlot_update time data p =
     (if init p then
        (case init_loop time data [0..<length data] p of
           Inl e \<Rightarrow> Inl e
         | Inr p1 \<Rightarrow>
             let p2 = p1\<lparr>init := False\<rparr>
             in relim (if legend p2 \<noteq> None
                       then p2\<lparr>ax := (ax p2)\<lparr>ax_legend := Some (line p2)\<rparr>\<rparr>
                       else p2))
      else
        (case set_loop time data [0..<length (line p)] p of
           Inl e \<Rightarrow> Inl e
         | Inr p1 \<Rightarrow> relim p1))"

text \<open>A sequence of calls of \<open>update\<close>, each a time list and a list of series; it ends at
  the first call that raises.\<close>

fun myPlot_updates :: "(real list \<times> real list list) list \<Rightarrow> myPlot \<Rightarrow> myPlot outcome" where
  "myPlot_updates [] p = Inr p"
| "myPlot_updates ((time, data) # cs) p =
     (case myPlot_update time data p of
        Inl e \<Rightarrow> Inl e
      | Inr p' \<Rightarrow> myPlot_updates cs p')"

text \<open>
  A run of calls in which a call that raises leaves the panel in the state it had reached,
  and the next call goes on from there, as for a caller that catches the exception.
\<close>

definition panel_run :: "(real list \<times> real list list) list \<Rightarrow> myPlot \<Rightarrow> myPlot" where
  "panel_run calls p = fold (\<lambda>c s. state_after (myPlot_update (fst c) (snd c) s)) calls p"

section \<open>dataplotter.py: class MotorDataPlotter\<close>

text \<open>
  One entry of \<open>plot_config\<close>.  The key \<open>'signals'\<close> is the one the docstring
  requires, so it is a plain field; every key the source reads with \<open>plot.get\<close> is
  optional.  \<open>cfg_legend\<close> is the key \<open>'legend'\<close>.
\<close>

record plot_cfg =
  signals :: "string list"
  ylabel :: "string option"
  xlabel :: "string option"
  title :: "string option"
  cfg_legend :: "string list option"
  conversion :: "real option"

text \<open>
  What \<open>plt.subplots(n, 1, ...)\<close> hands back as axes: one \<open>Axes\<close> object, or an
  array of them.  The call belongs to the plotting library; the constructor below takes
  it as the parameter \<open>subplots\<close>.
\<close>

datatype subplots_result = OneAxes Axes | AxesArray "Axes list"

record MotorDataPlotter =
  plot_config :: "plot_cfg list"
  num_plots :: nat
  time_history :: "real list"
  data_histories :: "string \<rightharpoonup> real list"
  handle :: "myPlot list"

text \<open>
  \<open>self.fig\<close> and \<open>self.ax\<close> are not read again after the constructor; the axes
  \<open>self.ax[i]\<close> live on as the \<open>ax\<close> of \<open>handle[i]\<close>.
\<close>

definition default_plot_config :: "plot_cfg list" where
  "default_plot_config =
     [\<lparr>signals = [''theta_ref'', ''theta''], ylabel = Some ''Angle (deg)'', xlabel = None,
       title = Some ''AC Motor Data'', cfg_legend = Some [''Reference'', ''Actual''],
       conversion = Some (180 / pi)\<rparr>,
      \<lparr>signals = [''omega''], ylabel = Some ''Velocity (rad/s)'', xlabel = None,
       title = None, cfg_legend = None, conversion = None\<rparr>,
      \<lparr>signals = [''current_d'', ''current_q''], ylabel = Some ''Current (A)'', xlabel = None,
       title = None, cfg_legend = Some [''I_d'', ''I_q''], conversion = None\<rparr>,
      \<lparr>signals = [''torque''], ylabel = Some ''Torque (N-m)'', xlabel = Some ''t (s)'',
       title = None, cfg_legend = None, conversion = None\<rparr>]"

text \<open>Lines 75 to 77: every signal of every group gets an empty history.\<close>

definition init_histories :: "plot_cfg list \<Rightarrow> (string \<rightharpoonup> real list)" where
  "init_histories cfg =
     fold (\<lambda>plot h. fold (\<lambda>signal h'. h'(signal \<mapsto> [])) (signals plot) h) cfg Map.empty"

text \<open>
  \<open>self.ax[i]\<close> as an \<open>Axes\<close>, after lines 67 and 68 have wrapped the result of
  \<open>subplots\<close> into a list when there is one plot.  Subscripting a single \<open>Axes\<close>
  raises TypeError; an array in the place of an \<open>Axes\<close> has no \<open>set_ylabel\<close>.
\<close>

definition axes_at :: "nat \<Rightarrow> subplots_result \<Rightarrow> nat \<Rightarrow> py_error + Axes" where
  "axes_at n res i =
     (if n = 1 then
        (if i = 0 then (case res of OneAxes a \<Rightarrow> Inr a | AxesArray as \<Rightarrow> Inl AttributeError)
         else Inl IndexError)
      else
        (case res of
           OneAxes a \<Rightarrow> Inl TypeError
         | AxesArray as \<Rightarrow> (case nth_opt as i of None \<Rightarrow> Inl IndexError | Some a \<Rightarrow> Inr a)))"

definition get_or :: "'a option \<Rightarrow> 'a \<Rightarrow> 'a" where
  "get_or v d = (case v of None \<Rightarrow> d | Some x \<Rightarrow> x)"

text \<open>Lines 80 to 90, over \<open>enumerate(self.plot_config)\<close>.\<close>

fun make_handles :: "nat \<Rightarrow> subplots_result \<Rightarrow> (nat \<times> plot_cfg) list \<Rightarrow> py_error + myPlot list" where
  "make_handles n res [] = Inr []"
| "make_handles n res ((i, plot) # ps) =
     (case axes_at n res i of
        Inl e \<Rightarrow> Inl e
      | Inr a \<Rightarrow>
          (case make_handles n res ps of
             Inl e \<Rightarrow> Inl e
           | Inr hs \<Rightarrow>
               Inr (myPlot_init a (get_or (xlabel plot) []) (get_or (ylabel plot) [])
                      (get_or (title plot) []) (cfg_legend plot) # hs)))"

definition MotorDataPlotter_init ::
  "(nat \<Rightarrow> py_error + subplots_result) \<Rightarrow> plot_cfg list option \<Rightarrow> py_error + MotorDataPlotter" where
  "MotorDataPlotter_init subplots plot_config_arg =
     (let cfg = (case plot_config_arg of None \<Rightarrow> default_plot_config | Some c \<Rightarrow> c);
          n = length cfg
      in (case subplots n of
            Inl e \<Rightarrow> Inl e
          | Inr res \<Rightarrow>
              (case make_handles n res (enumerate 0 cfg) of
                 Inl e \<Rightarrow> Inl e
               | Inr hs \<Rightarrow>
                   Inr \<lparr>plot_config = cfg, num_plots = n, time_history = [],
                        data_histories = init_histories cfg, handle = hs\<rparr>)))"

text \<open>
  Lines 108 to 110, for one item of \<open>kwargs\<close>.  The keyword arguments are a list of
  pairs; Python makes their names distinct.
\<close>

definition record_value :: "string \<times> real \<Rightarrow> (string \<rightharpoonup> real list) \<Rightarrow> (string \<rightharpoonup> real list)" where
  "record_value kv h =
     (case h (fst kv) of
        None \<Rightarrow> h
      | Some vs \<Rightarrow> h(fst kv \<mapsto> vs @ [snd kv]))"

text \<open>Lines 115 to 125: the series handed to the panel of one group.\<close>

definition plot_data :: "(string \<rightharpoonup> real list) \<Rightarrow> plot_cfg \<Rightarrow> real list list" where
  "plot_data h plot =
     (let conv = get_or (conversion plot) 1
      in map (\<lambda>signal. case h signal of
                          Some vs \<Rightarrow> map (\<lambda>val. val * conv) vs
                        | None \<Rightarrow> [])
             (signals plot))"

text \<open>Lines 113 to 128, over \<open>enumerate(self.plot_config)\<close>.\<close>

fun update_plots :: "(nat \<times> plot_cfg) list \<Rightarrow> MotorDataPlotter \<Rightarrow> MotorDataPlotter outcome" where
  "update_plots [] st = Inr st"
| "update_plots ((i, plot) # ps) st =
     (case nth_opt (handle st) i of
        None \<Rightarrow> Inl (IndexError, st)
      | Some p \<Rightarrow>
          (case myPlot_update (time_history st) (plot_data (data_histories st) plot) p of
             Inl (e, p') \<Rightarrow> Inl (e, st\<lparr>handle := (handle st)[i := p']\<rparr>)
           | Inr p' \<Rightarrow> update_plots ps (st\<lparr>handle := (handle st)[i := p']\<rparr>)))"

definition MotorDataPlotter_update ::
  "real \<Rightarrow> (string \<times> real) list \<Rightarrow> MotorDataPlotter \<Rightarrow> MotorDataPlotter outcome" where
  "MotorDataPlotter_update t kwargs st =
     (let st1 = st\<lparr>time_history := time_history st @ [t]\<rparr>;
          st2 = st1\<lparr>data_histories := fold record_value kwargs (data_histories st1)\<rparr>
      in update_plots (enumerate 0 (plot_config st2)) st2)"

text \<open>
  A run of calls of \<open>update\<close>, each a time and its keyword arguments.  A call that raises
  leaves the plotter in the state it had reached, and the run goes on from there, as it
  does for a caller that catches the exception.
\<close>

definition run_updates ::
  "(real \<times> (string \<times> real) list) list \<Rightarrow> MotorDataPlotter \<Rightarrow> MotorDataPlotter" where
  "run_updates calls st =
     fold (\<lambda>c s. state_after (MotorDataPlotter_update (fst c) (snd c) s)) calls st"

section \<open>motorAnimation.py: class ACMotorAnimation\<close>

text \<open>
  The artists of the scene: a circle patch with the arguments of \<open>plt.Circle\<close> (centre,
  radius, color, fill, alpha, edgecolor, linewidth), or a line made by \<open>ax.plot\<close> with
  its x data, y data, format string and linewidth.
\<close>

datatype artist =
    Circle "real \<times> real" real string bool "real option" string real
  | Line "real list" "real list" string real

text \<open>
  A title built by an f-string: literal text and numbers formatted with \<open>.2f\<close>, in the
  order of the string.
\<close>

datatype seg = Lit string | F2 real

text \<open>The letters theta, omega and tau of the title, as their UTF-8 bytes.\<close>

definition sym_theta :: string where
  "sym_theta = [CHR 0xCE, CHR 0xB8]"

definition sym_omega :: string where
  "sym_omega = [CHR 0xCF, CHR 0x89]"

definition sym_tau :: string where
  "sym_tau = [CHR 0xCF, CHR 0x84]"

text \<open>
  \<open>artists\<close> is the store of the artists this renderer has created; \<open>anim_handle\<close> is
  \<open>self.handle\<close>.  \<open>rotor_bar_handles\<close> and \<open>ref_mark\<close> are attributes that exist
  only once \<open>drawRotor\<close> and \<open>drawShaft\<close> have set them.  \<open>view_limit\<close> is the
  \<open>limit\<close> of \<open>plt.axis([-limit, limit, -limit, limit])\<close>; \<open>scene_title\<close>,
  \<open>scene_patches\<close> and \<open>scene_lines\<close> are the title of the axes and the artists
  registered with them by \<open>add_patch\<close> and \<open>plot\<close>.  The exit button and the signal
  handler do not touch any of this.
\<close>

record ACMotorAnimation =
  flagInit :: bool
  stator_radius :: real
  rotor_radius :: real
  shaft_radius :: real
  anim_handle :: "ref list"
  rotor_bar_handles :: "ref list option"
  ref_mark :: "ref option"
  artists :: "artist list"
  view_limit :: real
  scene_title :: "seg list"
  scene_patches :: "ref list"
  scene_lines :: "ref list"

text \<open>
  \<open>plt.axis([-limit, limit, -limit, limit])\<close> raises ValueError where a limit is not
  finite.  Floats being idealised as reals, the product \<open>1.5 * stator_radius\<close> is an
  infinite float where it is beyond the numbers that round to a finite double, those
  below \<open>2 ^ 1024 - 2 ^ 970\<close> in absolute value.
\<close>

definition float_finite :: "real \<Rightarrow> bool" where
  "float_finite x = (\<bar>x\<bar> < 2 ^ 1024 - 2 ^ 970)"

text \<open>
  The constructor, lines 28 to 59.  It stores the radii as they are given, without
  comparing them; the only call in it that depends on them is that of \<open>plt.axis\<close>.
\<close>

definition ACMotorAnimation_init :: "real \<Rightarrow> real \<Rightarrow> real \<Rightarrow> py_error + ACMotorAnimation" where
  "ACMotorAnimation_init stator rotor shaft =
     (let limit = 1.5 * stator
      in if float_finite limit then
           Inr \<lparr>flagInit = True,
                stator_radius = stator,
                rotor_radius = rotor,
                shaft_radius = shaft,
                anim_handle = [],
                rotor_bar_handles = None,
                ref_mark = None,
                artists = [],
                view_limit = limit,
                scene_title = [Lit ''AC Motor Visualization''],
                scene_patches = [],
                scene_lines = []\<rparr>
         else Inl ValueError)"

text \<open>
  \<open>self.handle.append(c)\<close> for a new circle \<open>c\<close>, and \<open>self.ax.add_patch\<close> of an
  element of \<open>self.handle\<close>.
\<close>

definition append_patch :: "artist \<Rightarrow> ACMotorAnimation \<Rightarrow> ACMotorAnimation" where
  "append_patch c a =
     a\<lparr>artists := artists a @ [c], anim_handle := anim_handle a @ [length (artists a)]\<rparr>"

definition add_patch :: "ref \<Rightarrow> ACMotorAnimation \<Rightarrow> ACMotorAnimation" where
  "add_patch r a = a\<lparr>scene_patches := scene_patches a @ [r]\<rparr>"

text \<open>\<open>self.ax.plot([], [], fmt, linewidth=w)\<close>: a new empty line, registered with the axes.\<close>

definition ax_plot :: "string \<Rightarrow> real \<Rightarrow> ACMotorAnimation \<Rightarrow> ref \<times> ACMotorAnimation" where
  "ax_plot f w a =
     (length (artists a),
      a\<lparr>artists := artists a @ [Line [] [] f w], scene_lines := scene_lines a @ [length (artists a)]\<rparr>)"

text \<open>
  \<open>set_data\<close> on the artist behind a handle.  The handles the source calls it on are
  lines; a circle has no \<open>set_data\<close>.
\<close>

definition set_data :: "ref \<Rightarrow> real list \<Rightarrow> real list \<Rightarrow> ACMotorAnimation \<Rightarrow> ACMotorAnimation outcome" where
  "set_data r x y a =
     (case nth_opt (artists a) r of
        Some (Line x0 y0 f w) \<Rightarrow> Inr (a\<lparr>artists := (artists a)[r := Line x y f w]\<rparr>)
      | _ \<Rightarrow> Inl (AttributeError, a))"

text \<open>One pass of the loop of lines 110 to 120.\<close>

definition coil_step :: "nat \<Rightarrow> ACMotorAnimation \<Rightarrow> ACMotorAnimation" where
  "coil_step i a =
     (let angle = real i * pi / 3;
          x = (stator_radius a - 0.15) * cos angle;
          y = (stator_radius a - 0.15) * sin angle;
          coil = Circle (x, y) 0.08 ([''red'', ''yellow'', ''blue''] ! (i mod 3)) True
                   (Some 0.7) ''black'' 1;
          a1 = append_patch coil a
      in add_patch (last (anim_handle a1)) a1)"

text \<open>
  The two circles of lines 93 and 98 are kept only in the initialisation; later calls
  build and drop them.
\<close>

definition drawStator :: "ACMotorAnimation \<Rightarrow> ACMotorAnimation" where
  "drawStator a =
     (let stator_outer = Circle (0, 0) (stator_radius a) ''gray'' True (Some 0.3) ''black'' 2;
          stator_inner = Circle (0, 0) (rotor_radius a + 0.05) ''white'' True None ''black'' 1
      in if flagInit a then
           let a1 = append_patch stator_outer a;
               a2 = append_patch stator_inner a1;
               a3 = add_patch (anim_handle a2 ! 0) a2;
               a4 = add_patch (anim_handle a3 ! 1) a3
           in fold coil_step [0..<6] a4
         else a)"

text \<open>One pass of the loop of lines 136 to 139.\<close>

definition bar_create :: "nat \<Rightarrow> ACMotorAnimation \<Rightarrow> ACMotorAnimation" where
  "bar_create i a =
     (let (line_handle, a1) = ax_plot ''k-'' 3 a
      in a1\<lparr>rotor_bar_handles := Some (get_or (rotor_bar_handles a1) [] @ [line_handle]),
            anim_handle := anim_handle a1 @ [line_handle]\<rparr>)"

text \<open>One pass of the loop of lines 142 to 150.\<close>

definition bar_update :: "real \<Rightarrow> nat \<times> ref \<Rightarrow> ACMotorAnimation \<Rightarrow> ACMotorAnimation outcome" where
  "bar_update theta ih a =
     (let angle = theta + real (fst ih) * 2 * pi / 8;
          r_inner = shaft_radius a + 0.05;
          r_outer = rotor_radius a - 0.05;
          x = [r_inner * cos angle, r_outer * cos angle];
          y = [r_inner * sin angle, r_outer * sin angle]
      in set_data (snd ih) x y a)"

fun bars_loop :: "real \<Rightarrow> (nat \<times> ref) list \<Rightarrow> ACMotorAnimation \<Rightarrow> ACMotorAnimation outcome" where
  "bars_loop theta [] a = Inr a"
| "bars_loop theta (ih # ihs) a =
     (case bar_update theta ih a of
        Inl e \<Rightarrow> Inl e
      | Inr a' \<Rightarrow> bars_loop theta ihs a')"

text \<open>
  In \<open>bar_create\<close> the attribute \<open>rotor_bar_handles\<close> has just been set to the empty
  list by line 135, so reading it cannot fail there.  Line 142 reads it in every call,
  and raises AttributeError where it was never set.
\<close>

definition drawRotor :: "real \<Rightarrow> ACMotorAnimation \<Rightarrow> ACMotorAnimation outcome" where
  "drawRotor theta a =
     (let rotor_body = Circle (0, 0) (rotor_radius a) ''lightblue'' True (Some 0.6) ''black'' 2;
          a3 = (if flagInit a then
                  let a1 = append_patch rotor_body a;
                      a2 = add_patch (last (anim_handle a1)) a1
                  in fold bar_create [0..<8] (a2\<lparr>rotor_bar_handles := Some []\<rparr>)
                else a)
      in (case rotor_bar_handles a3 of
            None \<Rightarrow> Inl (AttributeError, a3)
          | Some bars \<Rightarrow> bars_loop theta (enumerate 0 bars) a3))"

definition drawShaft :: "real \<Rightarrow> ACMotorAnimation \<Rightarrow> ACMotorAnimation outcome" where
  "drawShaft theta a =
     (let shaft = Circle (0, 0) (shaft_radius a) ''darkgray'' True None ''black'' 2;
          a3 = (if flagInit a then
                  let a1 = append_patch shaft a;
                      a2 = add_patch (last (anim_handle a1)) a1;
                      (mark, a2') = ax_plot ''r-'' 3 a2
                  in a2'\<lparr>ref_mark := Some mark, anim_handle := anim_handle a2' @ [mark]\<rparr>
                else a);
          x = [0, shaft_radius a3 * cos theta];
          y = [0, shaft_radius a3 * sin theta]
      in (case ref_mark a3 of
            None \<Rightarrow> Inl (AttributeError, a3)
          | Some mark \<Rightarrow> set_data mark x y a3))"

text \<open>Lines 79 to 84.\<close>

definition motor_title :: "real \<Rightarrow> real option \<Rightarrow> real option \<Rightarrow> seg list" where
  "motor_title theta omega torque =
     (if omega \<noteq> None \<and> torque \<noteq> None then
        [Lit (''AC Motor: '' @ sym_theta @ ''=''), F2 theta,
         Lit ('' rad, '' @ sym_omega @ ''=''), F2 (the omega),
         Lit ('' rad/s, '' @ sym_tau @ ''=''), F2 (the torque), Lit '' N-m'']
      else if omega \<noteq> None then
        [Lit (''AC Motor: '' @ sym_theta @ ''=''), F2 theta,
         Lit ('' rad, '' @ sym_omega @ ''=''), F2 (the omega), Lit '' rad/s'']
      else
        [Lit (''AC Motor: '' @ sym_theta @ ''=''), F2 theta, Lit '' rad''])"

definition ACMotorAnimation_update ::
  "real \<Rightarrow> real option \<Rightarrow> real option \<Rightarrow> ACMotorAnimation \<Rightarrow> ACMotorAnimation outcome" where
  "ACMotorAnimation_update theta omega torque a =
     (case drawRotor theta (drawStator a) of
        Inl e \<Rightarrow> Inl e
      | Inr a1 \<Rightarrow>
          (case drawShaft theta a1 of
             Inl e \<Rightarrow> Inl e
           | Inr a2 \<Rightarrow>
               let a3 = a2\<lparr>scene_title := motor_title theta omega torque\<rparr>
               in Inr (if flagInit a3 then a3\<lparr>flagInit := False\<rparr> else a3)))"

text \<open>
  A run of calls of \<open>update\<close>, each an angle with the optional velocity and torque; a call
  that raises leaves the renderer as it was at the exception.
\<close>

definition anim_updates ::
  "(real \<times> real option \<times> real option) list \<Rightarrow> ACMotorAnimation \<Rightarrow> ACMotorAnimation" where
  "anim_updates calls a =
     fold (\<lambda>c s. state_after (ACMotorAnimation_update (fst c) (fst (snd c)) (snd (snd c)) s))
       calls a"

section \<open>Notions used in the statements\<close>

subsection \<open>Panels\<close>

text \<open>
  The line that the initialisation of a panel builds for series \<open>i\<close>, as the statements
  expect it: the data of the call, the style of index \<open>i\<close> in the two palettes, and the
  label \<open>i\<close> of the legend where there is a legend.
\<close>

definition expected_line :: "real list \<Rightarrow> real list list \<Rightarrow> string list option \<Rightarrow> nat \<Rightarrow> Line2D" where
  "expected_line time data lg i =
     \<lparr>xdata = time, ydata = data ! i,
      color = palette_colors ! (i mod 7), ls = palette_styles ! (i mod 5),
      label = map_option (\<lambda>l. l ! i) lg\<rparr>"


definition palettes_ok :: "myPlot \<Rightarrow> bool" where
  "palettes_ok p = (colors p = palette_colors \<and> line_styles p = palette_styles)"

text \<open>The legend is absent, or has a label for each of \<open>n\<close> series.\<close>

definition legend_covers :: "string list option \<Rightarrow> nat \<Rightarrow> bool" where
  "legend_covers lg n = (case lg of None \<Rightarrow> True | Some l \<Rightarrow> n \<le> length l)"

text \<open>Every series of a call pairs with the time list of the call.\<close>

definition drawable :: "real list \<Rightarrow> real list list \<Rightarrow> bool" where
  "drawable time data = (\<forall>s \<in> set data. broadcastable (length time) (length s))"

text \<open>
  What holds of every panel at all times: the palettes are those of the constructor, and
  line \<open>i\<close> of the panel is object \<open>i\<close> of its store.
\<close>

definition well_built :: "myPlot \<Rightarrow> bool" where
  "well_built p = (palettes_ok p \<and> line p = [0..<length (objs p)])"

text \<open>
  What keeps the initialisation of a panel with \<open>k\<close> series from ever completing: a
  legend with fewer than \<open>k\<close> labels, or a line among the first \<open>k\<close> whose data do
  not pair.
\<close>

definition stuck :: "nat \<Rightarrow> myPlot \<Rightarrow> bool" where
  "stuck k p =
     (\<not> legend_covers (legend p) k \<or>
      (\<exists>i<k. i < length (objs p) \<and> \<not> line_ok (objs p ! i)))"

text \<open>A panel without lines after the first \<open>n\<close> passes of its initialisation loop.\<close>

definition after_first :: "myPlot \<Rightarrow> real list \<Rightarrow> real list list \<Rightarrow> nat \<Rightarrow> myPlot" where
  "after_first p time data n =
     p\<lparr>objs := map (expected_line time data (legend p)) [0..<n],
       line := [0..<n],
       ax := (ax p)\<lparr>ax_lines := ax_lines (ax p) @ [0..<n]\<rparr>\<rparr>"

text \<open>Line \<open>i\<close> of the panel is object \<open>i\<close> of its store and has the style of index \<open>i\<close>.\<close>

definition styled :: "myPlot \<Rightarrow> bool" where
  "styled p = (line p = [0..<length (objs p)] \<and>
     (\<forall>i<length (objs p). color (objs p ! i) = palette_colors ! (i mod 7) \<and>
                            ls (objs p ! i) = palette_styles ! (i mod 5)))"

text \<open>Axes as the plotting library hands them out, before any decoration.\<close>

definition blank_axes :: Axes where
  "blank_axes = \<lparr>ax_ylabel = [], ax_xlabel = [], ax_title = [], ax_grid = False,
                  ax_lines = [], ax_legend = None\<rparr>"

subsection \<open>Plotters\<close>

text \<open>The signals that the groups of a configuration declare.\<close>

definition declared :: "plot_cfg list \<Rightarrow> string set" where
  "declared cfg = set (concat (map signals cfg))"


text \<open>
  The result of \<open>subplots\<close> suits \<open>n\<close> groups: one \<open>Axes\<close> for one group, an array of
  at least \<open>n\<close> otherwise.
\<close>

definition axes_fit :: "nat \<Rightarrow> subplots_result \<Rightarrow> bool" where
  "axes_fit n res = (case res of OneAxes a \<Rightarrow> n = 1 | AxesArray as \<Rightarrow> n \<noteq> 1 \<and> n \<le> length as)"






text \<open>
  \<open>plt.subplots(n, 1, ...)\<close> of matplotlib, as far as the constructor meets it: it
  raises ValueError for zero rows, and returns one new \<open>Axes\<close> for one row and an array
  of new axes otherwise.
\<close>

definition plt_subplots :: "nat \<Rightarrow> py_error + subplots_result" where
  "plt_subplots n =
     (if n = 0 then Inl ValueError
      else if n = 1 then Inr (OneAxes blank_axes)
      else Inr (AxesArray (replicate n blank_axes)))"



text \<open>
  Scenario A of the specification: one group of \<open>theta_ref\<close> and \<open>theta\<close>, converted
  from radians to degrees; and the plotter constructed from it.
\<close>

definition scenario_A :: "plot_cfg list" where
  "scenario_A = [\<lparr>signals = [''theta_ref'', ''theta''], ylabel = None, xlabel = None,
       title = None, cfg_legend = None, conversion = Some (180 / pi)\<rparr>]"

definition plotter_A :: MotorDataPlotter where
  "plotter_A = \<lparr>plot_config = scenario_A, num_plots = 1, time_history = [],
       data_histories = init_histories scenario_A,
       handle = [myPlot_init blank_axes [] [] [] None]\<rparr>"

text \<open>Scenario C of the specification: two signals, three legend labels.\<close>

definition scenario_C :: "plot_cfg list" where
  "scenario_C = [\<lparr>signals = [''theta_ref'', ''theta''], ylabel = None, xlabel = None,
       title = None, cfg_legend = Some [''Reference'', ''Actual'', ''Extra''], conversion = None\<rparr>]"

subsection \<open>Scene renderers\<close>

text \<open>
  The number that a title shows under a name: the formatted number that follows a
  literal part ending in the name and an equals sign.
\<close>

definition ends_with :: "string \<Rightarrow> string \<Rightarrow> bool" where
  "ends_with suffix s = (length suffix \<le> length s \<and> drop (length s - length suffix) s = suffix)"

fun title_field :: "string \<Rightarrow> seg list \<Rightarrow> real option" where
  "title_field nm (Lit s # F2 x # rest) =
     (if ends_with (nm @ ''='') s then Some x else title_field nm rest)"
| "title_field nm (sg # rest) = title_field nm rest"
| "title_field nm [] = None"

text \<open>The x and y data of a line.\<close>

definition line_data :: "artist \<Rightarrow> (real list \<times> real list) option" where
  "line_data art = (case art of Line x y f w \<Rightarrow> Some (x, y) | Circle c r col fl al ec lw \<Rightarrow> None)"

definition is_Line :: "artist \<Rightarrow> bool" where
  "is_Line art = (case art of Line x y f w \<Rightarrow> True | Circle c r col fl al ec lw \<Rightarrow> False)"

text \<open>
  The renderer has left its initialisation: the rotor bars and the reference mark exist
  and are lines of its store.
\<close>

definition live :: "ACMotorAnimation \<Rightarrow> bool" where
  "live a =
     (\<not> flagInit a \<and>
      (case rotor_bar_handles a of
         None \<Rightarrow> False
       | Some bars \<Rightarrow>
           (case ref_mark a of
              None \<Rightarrow> False
            | Some mark \<Rightarrow>
                (\<forall>r \<in> set (mark # bars). r < length (artists a) \<and> is_Line (artists a ! r)))))"

section \<open>Properties of the panel\<close>

subsection \<open>The passes of the initialisation loop\<close>

lemma length_palettes: "length palette_colors = 7" "length palette_styles = 5"
  by (simp_all add: palette_colors_def palette_styles_def)

lemma myPlot_init_fresh:
  "palettes_ok (myPlot_init a xl yl ti lg)" "init (myPlot_init a xl yl ti lg)"
  "line (myPlot_init a xl yl ti lg) = []" "objs (myPlot_init a xl yl ti lg) = []"
  "legend (myPlot_init a xl yl ti lg) = lg" "well_built (myPlot_init a xl yl ti lg)"
  by (simp_all add: myPlot_init_def palettes_ok_def well_built_def)

lemma new_Line2D_ok:
  assumes "palettes_ok p" "i < length data" "legend_covers (legend p) (Suc i)"
  shows "new_Line2D time data i p = Some (expected_line time data (legend p) i)"
  using assms
  by (auto simp: new_Line2D_def nth_opt_def np_mod_def palettes_ok_def legend_covers_def
      length_palettes expected_line_def split: option.splits)

lemma new_Line2D_None:
  assumes "\<not> (i < length data \<and> legend_covers (legend p) (Suc i))"
  shows "new_Line2D time data i p = None"
  using assms
  by (auto simp: new_Line2D_def nth_opt_def legend_covers_def
      split: option.splits Option.bind_splits)

lemma line_ok_expected:
  "line_ok (expected_line time data lg i) = broadcastable (length time) (length (data ! i))"
  by (simp add: line_ok_def expected_line_def)

text \<open>What a pass does, on a panel as it is at all times.\<close>

lemma init_step_cases:
  assumes "well_built p" "i \<le> length (objs p)"
  shows "init_step time data i p =
     (if i < length data \<and> legend_covers (legend p) (Suc i) then
        (if line_ok ((objs p @ [expected_line time data (legend p) i]) ! i)
         then Inr (p\<lparr>objs := objs p @ [expected_line time data (legend p) i],
                     line := [0..<Suc (length (objs p))],
                     ax := (ax p)\<lparr>ax_lines := ax_lines (ax p) @ [i]\<rparr>\<rparr>)
         else Inl (ValueError,
                   p\<lparr>objs := objs p @ [expected_line time data (legend p) i],
                     line := [0..<Suc (length (objs p))]\<rparr>))
      else Inl (IndexError, p))"
proof (cases "i < length data \<and> legend_covers (legend p) (Suc i)")
  case False
  then show ?thesis by (simp add: init_step_def new_Line2D_None)
next
  case True
  then have "new_Line2D time data i p = Some (expected_line time data (legend p) i)"
    using assms(1) by (intro new_Line2D_ok) (auto simp: well_built_def)
  then show ?thesis
    using True assms
    by (auto simp: init_step_def Let_def nth_opt_def add_line_def well_built_def nth_append)
qed

lemma init_step_ok:
  assumes "palettes_ok p" "i < length data" "legend_covers (legend p) (Suc i)"
    and "line p = [0..<i]" "length (objs p) = i"
    and "broadcastable (length time) (length (data ! i))"
  shows "init_step time data i p =
     Inr (p\<lparr>objs := objs p @ [expected_line time data (legend p) i],
            line := [0..<Suc i],
            ax := (ax p)\<lparr>ax_lines := ax_lines (ax p) @ [i]\<rparr>\<rparr>)"
  using assms init_step_cases[of p i time data]
  by (simp add: well_built_def line_ok_expected nth_append)

lemma init_loop_ok:
  assumes "palettes_ok p" "n \<le> length data" "legend_covers (legend p) n"
    and "line p = [0..<m]" "length (objs p) = m" "m \<le> n"
    and "\<forall>i<n. broadcastable (length time) (length (data ! i))"
  shows "init_loop time data [m..<n] p =
     Inr (p\<lparr>objs := objs p @ map (expected_line time data (legend p)) [m..<n],
            line := [0..<n],
            ax := (ax p)\<lparr>ax_lines := ax_lines (ax p) @ [m..<n]\<rparr>\<rparr>)"
  using assms
proof (induction "n - m" arbitrary: m p)
  case 0
  then show ?case by simp
next
  case (Suc d)
  then have lt: "m < n" by simp
  have cov: "legend_covers (legend p) (Suc m)"
    using Suc.prems(3) lt by (auto simp: legend_covers_def split: option.splits)
  let ?p' = "p\<lparr>objs := objs p @ [expected_line time data (legend p) m],
            line := [0..<Suc m],
            ax := (ax p)\<lparr>ax_lines := ax_lines (ax p) @ [m]\<rparr>\<rparr>"
  have step: "init_step time data m p = Inr ?p'"
    using Suc.prems lt cov by (intro init_step_ok) auto
  have "init_loop time data [Suc m..<n] ?p' =
     Inr (?p'\<lparr>objs := objs ?p' @ map (expected_line time data (legend ?p')) [Suc m..<n],
            line := [0..<n],
            ax := (ax ?p')\<lparr>ax_lines := ax_lines (ax ?p') @ [Suc m..<n]\<rparr>\<rparr>)"
    using Suc.prems Suc.hyps(2) lt
    by (intro Suc.hyps(1)) (auto simp: palettes_ok_def)
  then show ?case
    using lt step by (simp add: upt_conv_Cons)
qed

lemma init_loop_append:
  "init_loop time data (xs @ ys) p =
     (case init_loop time data xs p of Inl e \<Rightarrow> Inl e | Inr p' \<Rightarrow> init_loop time data ys p')"
  by (induction xs arbitrary: p) (auto split: sum.splits)

lemma init_step_short:
  assumes "legend p = Some lg" "length lg \<le> i"
  shows "init_step time data i p = Inl (IndexError, p)"
  using assms by (simp add: init_step_def new_Line2D_None legend_covers_def)

lemma init_loop_short:
  assumes "palettes_ok p" "legend p = Some lg" "length lg < n" "n \<le> length data"
    and "line p = [0..<m]" "length (objs p) = m" "m \<le> length lg"
    and "\<forall>i<length lg. broadcastable (length time) (length (data ! i))"
  shows "init_loop time data [m..<n] p =
     Inl (IndexError,
          p\<lparr>objs := objs p @ map (expected_line time data (legend p)) [m..<length lg],
            line := [0..<length lg],
            ax := (ax p)\<lparr>ax_lines := ax_lines (ax p) @ [m..<length lg]\<rparr>\<rparr>)"
proof -
  let ?L = "length lg"
  have split: "[m..<n] = [m..<?L] @ (?L # [Suc ?L..<n])"
    using assms(3,7) by (metis le_Suc_ex less_imp_le_nat upt_add_eq_append upt_conv_Cons)
  have first: "init_loop time data [m..<?L] p =
     Inr (p\<lparr>objs := objs p @ map (expected_line time data (legend p)) [m..<?L],
            line := [0..<?L],
            ax := (ax p)\<lparr>ax_lines := ax_lines (ax p) @ [m..<?L]\<rparr>\<rparr>)"
    using assms by (intro init_loop_ok) (auto simp: legend_covers_def)
  show ?thesis
    unfolding split init_loop_append first
    using assms(2) by (simp add: init_step_short)
qed

text \<open>
  The loop on any panel, whatever its outcome: it adds the expected lines of consecutive
  series, and where it raises, the panel is held in its initialisation.
\<close>

lemma init_loop_any:
  assumes "well_built p" "m \<le> length (objs p)" "n \<le> length data" "m \<le> n"
  shows "well_built (state_after (init_loop time data [m..<n] p)) \<and>
         init (state_after (init_loop time data [m..<n] p)) = init p \<and>
         legend (state_after (init_loop time data [m..<n] p)) = legend p \<and>
         (\<exists>j. m \<le> j \<and> j \<le> n \<and>
              objs (state_after (init_loop time data [m..<n] p)) =
                objs p @ map (expected_line time data (legend p)) [m..<j] \<and>
              (\<not> isl (init_loop time data [m..<n] p) \<longrightarrow> j = n)) \<and>
         (isl (init_loop time data [m..<n] p) \<longrightarrow>
              stuck n (state_after (init_loop time data [m..<n] p)))"
  using assms
proof (induction "n - m" arbitrary: m p)
  case 0
  then have "m = n" by simp
  then show ?case using "0.prems"(1) by (auto simp: state_after_def)
next
  case (Suc d)
  then have lt: "m < n" by simp
  let ?E = "expected_line time data (legend p)"
  let ?R = "init_loop time data [m..<n] p"
  have loop: "?R = (case init_step time data m p of Inl e \<Rightarrow> Inl e
                    | Inr p' \<Rightarrow> init_loop time data [Suc m..<n] p')"
    using lt by (simp add: upt_conv_Cons)
  note step = init_step_cases[OF Suc.prems(1,2), of time data]
  show ?case
  proof (cases "legend_covers (legend p) (Suc m)")
    case False
    then have R: "?R = Inl (IndexError, p)" using loop step by simp
    have "stuck n p"
      using False lt by (auto simp: stuck_def legend_covers_def split: option.splits)
    then show ?thesis
      unfolding R using Suc.prems(1) lt by (auto simp: state_after_def intro!: exI[of _ m])
  next
    case True
    let ?p1 = "p\<lparr>objs := objs p @ [?E m], line := [0..<Suc (length (objs p))]\<rparr>"
    show ?thesis
    proof (cases "line_ok ((objs p @ [?E m]) ! m)")
      case bad: False
      then have R: "?R = Inl (ValueError, ?p1)"
        using loop step True lt Suc.prems(3) by simp
      have "stuck n ?p1"
        using bad lt Suc.prems(2) by (auto simp: stuck_def intro!: exI[of _ m])
      moreover have "well_built ?p1"
        using Suc.prems(1) by (simp add: well_built_def palettes_ok_def)
      ultimately show ?thesis
        unfolding R using lt by (auto simp: state_after_def intro!: exI[of _ "Suc m"])
    next
      case good: True
      let ?p2 = "?p1\<lparr>ax := (ax p)\<lparr>ax_lines := ax_lines (ax p) @ [m]\<rparr>\<rparr>"
      have s: "init_step time data m p = Inr ?p2"
        using step True good lt Suc.prems(3) by simp
      then have R: "?R = init_loop time data [Suc m..<n] ?p2" using loop by simp
      have wb: "well_built ?p2"
        using Suc.prems(1) by (simp add: well_built_def palettes_ok_def)
      have ih: "well_built (state_after (init_loop time data [Suc m..<n] ?p2)) \<and>
         init (state_after (init_loop time data [Suc m..<n] ?p2)) = init ?p2 \<and>
         legend (state_after (init_loop time data [Suc m..<n] ?p2)) = legend ?p2 \<and>
         (\<exists>j. Suc m \<le> j \<and> j \<le> n \<and>
              objs (state_after (init_loop time data [Suc m..<n] ?p2)) =
                objs ?p2 @ map (expected_line time data (legend ?p2)) [Suc m..<j] \<and>
              (\<not> isl (init_loop time data [Suc m..<n] ?p2) \<longrightarrow> j = n)) \<and>
         (isl (init_loop time data [Suc m..<n] ?p2) \<longrightarrow>
              stuck n (state_after (init_loop time data [Suc m..<n] ?p2)))"
        using Suc.hyps(2) Suc.prems lt wb by (intro Suc.hyps(1)) auto
      then obtain j where j: "Suc m \<le> j" "j \<le> n"
        "objs (state_after (init_loop time data [Suc m..<n] ?p2)) =
                objs ?p2 @ map (expected_line time data (legend ?p2)) [Suc m..<j]"
        "\<not> isl (init_loop time data [Suc m..<n] ?p2) \<longrightarrow> j = n"
        by blast
      have "objs ?p2 @ map (expected_line time data (legend ?p2)) [Suc m..<j]
          = objs p @ map ?E [m..<j]"
        using j(1) by (simp add: upt_conv_Cons)
      then show ?thesis
        unfolding R using ih j by (auto intro!: exI[of _ j])
    qed
  qed
qed




subsection \<open>The other loop, and the limits\<close>



lemma relim_state: "state_after (relim p) = p"
  by (simp add: relim_def state_after_def)


lemma relim_alt:
  "relim p =
     (if \<forall>r \<in> set (ax_lines (ax p)). r < length (objs p) \<longrightarrow> line_ok (objs p ! r)
      then Inr p else Inl (ValueError, p))"
  by (auto simp: relim_def nth_opt_def split: option.splits)



subsection \<open>The two branches of update\<close>

lemma myPlot_update_first_ok:
  assumes "palettes_ok p" "init p" "line p = []" "objs p = []"
    and "legend_covers (legend p) (length data)" "drawable time data"
  shows "myPlot_update time data p =
     Inr ((after_first p time data (length data))
           \<lparr>ax := (ax (after_first p time data (length data)))
                  \<lparr>ax_legend := (if legend p \<noteq> None then Some [0..<length data]
                                  else ax_legend (ax p))\<rparr>,
             init := False\<rparr>)"
proof -
  have pairs: "\<forall>i<length data. broadcastable (length time) (length (data ! i))"
    using assms(6) by (simp add: drawable_def)
  then have loop: "init_loop time data [0..<length data] p = Inr (after_first p time data (length data))"
    using assms init_loop_ok[of p "length data" data 0 time]
    by (simp add: after_first_def)
  show ?thesis
    using assms(2) loop pairs
    by (auto simp: myPlot_update_def Let_def after_first_def relim_alt line_ok_expected)
qed

lemma myPlot_update_first_short:
  assumes "palettes_ok p" "init p" "line p = []" "objs p = []"
    and "legend p = Some lg" "length lg < length data"
    and "\<forall>i<length lg. broadcastable (length time) (length (data ! i))"
  shows "myPlot_update time data p = Inl (IndexError, after_first p time data (length lg))"
proof -
  have "init_loop time data [0..<length data] p =
      Inl (IndexError, after_first p time data (length lg))"
    using assms init_loop_short[of p lg "length data" data 0 time]
    by (simp add: after_first_def)
  then show ?thesis
    using assms(2) by (simp add: myPlot_update_def)
qed







subsection \<open>What the loops keep\<close>

lemma init_step_keeps:
  assumes "p' = state_after (init_step time data i p)"
  shows "legend p' = legend p \<and> init p' = init p \<and> colors p' = colors p \<and>
         line_styles p' = line_styles p"
  using assms
  by (auto simp: init_step_def add_line_def state_after_def Let_def split: option.splits)

lemma init_loop_keeps:
  assumes "p' = state_after (init_loop time data is p)"
  shows "legend p' = legend p \<and> init p' = init p \<and> colors p' = colors p \<and>
         line_styles p' = line_styles p"
  using assms
proof (induction "is" arbitrary: p)
  case Nil
  then show ?case by (simp add: state_after_def)
next
  case (Cons i "is")
  show ?case
  proof (cases "init_step time data i p")
    case (Inl e)
    then have "p' = state_after (init_step time data i p)"
      using Cons.prems by (simp add: state_after_def)
    then show ?thesis by (rule init_step_keeps)
  next
    case (Inr q)
    then have "q = state_after (init_step time data i p)" by (simp add: state_after_def)
    from init_step_keeps[OF this] have q: "legend q = legend p \<and> init q = init p \<and>
        colors q = colors p \<and> line_styles q = line_styles p" .
    have "p' = state_after (init_loop time data is q)"
      using Cons.prems Inr by simp
    from Cons.IH[OF this] q show ?thesis by simp
  qed
qed

lemma set_step_keeps:
  "palettes_ok (state_after (set_step time data i p)) = palettes_ok p \<and>
   legend (state_after (set_step time data i p)) = legend p"
  by (auto simp: set_step_def state_after_def palettes_ok_def Let_def split: option.splits)

lemma set_loop_keeps:
  "palettes_ok (state_after (set_loop time data is p)) = palettes_ok p \<and>
   legend (state_after (set_loop time data is p)) = legend p"
proof (induction "is" arbitrary: p)
  case Nil
  then show ?case by (simp add: state_after_def)
next
  case (Cons i "is")
  show ?case
  proof (cases "set_step time data i p")
    case (Inl e)
    then show ?thesis using set_step_keeps[of time data i p] by (simp add: state_after_def)
  next
    case (Inr q)
    then have "palettes_ok q = palettes_ok p \<and> legend q = legend p"
      using set_step_keeps[of time data i p] by (simp add: state_after_def)
    then show ?thesis using Cons.IH[of q] Inr by simp
  qed
qed

lemma state_after_relim_case:
  "state_after (case r of Inl e \<Rightarrow> Inl e | Inr p1 \<Rightarrow> relim (f p1)) =
     (case r of Inl e \<Rightarrow> snd e | Inr p1 \<Rightarrow> f p1)"
  by (auto simp: state_after_def relim_def split: sum.splits)

lemma myPlot_update_keeps:
  "palettes_ok (state_after (myPlot_update time data p)) = palettes_ok p \<and>
   legend (state_after (myPlot_update time data p)) = legend p"
proof (cases "init p")
  case False
  then have "state_after (myPlot_update time data p) =
      state_after (set_loop time data [0..<length (line p)] p)"
    using state_after_relim_case[where r = "set_loop time data [0..<length (line p)] p" and f = "\<lambda>q. q"]
    by (auto simp: myPlot_update_def state_after_def split: sum.splits)
  then show ?thesis by (simp add: set_loop_keeps)
next
  case True
  let ?r = "init_loop time data [0..<length data] p"
  have keeps: "colors (state_after ?r) = colors p \<and> line_styles (state_after ?r) = line_styles p \<and>
               legend (state_after ?r) = legend p"
    using init_loop_keeps[OF refl, of time data "[0..<length data]" p] by simp
  show ?thesis
  proof (cases ?r)
    case (Inl e)
    then show ?thesis using True keeps
      by (simp add: myPlot_update_def state_after_def palettes_ok_def)
  next
    case (Inr q)
    then show ?thesis using True keeps
      by (simp add: myPlot_update_def state_after_def palettes_ok_def Let_def relim_def)
  qed
qed

lemma panel_run_keeps:
  "palettes_ok (panel_run cs p) = palettes_ok p \<and> legend (panel_run cs p) = legend p"
  by (induction cs rule: rev_induct) (simp_all add: panel_run_def myPlot_update_keeps)

subsection \<open>Styles\<close>

lemma set_step_styled:
  assumes "styled p" "p' = state_after (set_step time data i p)"
  shows "styled p' \<and> init p' = init p"
  using assms
  by (auto simp: set_step_def styled_def state_after_def nth_opt_def nth_list_update Let_def
      split: option.splits)

lemma set_loop_styled:
  assumes "styled p" "p' = state_after (set_loop time data is p)"
  shows "styled p' \<and> init p' = init p"
  using assms
proof (induction "is" arbitrary: p)
  case Nil
  then show ?case by (simp add: state_after_def)
next
  case (Cons i "is")
  show ?case
  proof (cases "set_step time data i p")
    case (Inl e)
    then have "p' = state_after (set_step time data i p)"
      using Cons.prems(2) by (simp add: state_after_def)
    then show ?thesis using set_step_styled Cons.prems(1) by blast
  next
    case (Inr q)
    then have q: "styled q \<and> init q = init p"
      using set_step_styled[OF Cons.prems(1), of q time data i] by (simp add: state_after_def)
    have "p' = state_after (set_loop time data is q)"
      using Cons.prems(2) Inr by simp
    then show ?thesis using Cons.IH q by metis
  qed
qed

lemma myPlot_update_styled:
  assumes "(palettes_ok p \<and> init p \<and> line p = [] \<and> objs p = []) \<or> (\<not> init p \<and> styled p)"
    and "p' = state_after (myPlot_update time data p)"
  shows "styled p'" and "isl (myPlot_update time data p) \<or> \<not> init p'"
proof -
  have "styled p' \<and> (isl (myPlot_update time data p) \<or> \<not> init p')"
    using assms(1)
  proof
    assume fresh: "palettes_ok p \<and> init p \<and> line p = [] \<and> objs p = []"
    let ?R = "init_loop time data [0..<length data] p"
    have wb: "well_built p" using fresh by (simp add: well_built_def)
    from init_loop_any[of p 0 "length data" data time] wb fresh
    obtain j where S: "well_built (state_after ?R)"
        "objs (state_after ?R) = map (expected_line time data (legend p)) [0..<j]"
      by auto
    then have st: "styled (state_after ?R)"
      by (simp add: styled_def well_built_def expected_line_def)
    show ?thesis
    proof (cases ?R)
      case (Inl e)
      then show ?thesis
        using fresh assms(2) st by (simp add: myPlot_update_def state_after_def)
    next
      case (Inr p1)
      then have "styled p1" using st by (simp add: state_after_def)
      then show ?thesis
        using fresh assms(2) Inr
        by (auto simp: myPlot_update_def Let_def relim_state styled_def)
    qed
  next
    assume live: "\<not> init p \<and> styled p"
    then have "p' = state_after (set_loop time data [0..<length (line p)] p)"
      using assms(2) state_after_relim_case[where r = "set_loop time data [0..<length (line p)] p" and f = "\<lambda>q. q"]
      by (auto simp: myPlot_update_def state_after_def split: sum.splits)
    then show ?thesis
      using set_loop_styled live by blast
  qed
  then show "styled p'" and "isl (myPlot_update time data p) \<or> \<not> init p'" by auto
qed

lemma myPlot_updates_styled:
  assumes "\<not> init p" "styled p" "myPlot_updates cs p = Inr p'"
  shows "\<not> init p' \<and> styled p'"
  using assms
proof (induction cs arbitrary: p)
  case Nil
  then show ?case by simp
next
  case (Cons c cs)
  obtain time data where c: "c = (time, data)" by (cases c)
  from Cons.prems(3) c obtain q where q: "myPlot_update time data p = Inr q"
    and rest: "myPlot_updates cs q = Inr p'"
    by (auto split: sum.splits)
  have "styled q" "\<not> init q"
    using myPlot_update_styled[of p q time data] Cons.prems(1,2) q
    by (auto simp: state_after_def)
  then show ?case using Cons.IH rest by blast
qed

lemma myPlot_updates_fresh_styled:
  assumes "myPlot_updates cs (myPlot_init a xl yl ti lg) = Inr p"
  shows "(p = myPlot_init a xl yl ti lg \<and> cs = []) \<or> (\<not> init p \<and> styled p)"
proof (cases cs)
  case Nil
  then show ?thesis using assms by simp
next
  case (Cons c cs')
  obtain time data where c: "c = (time, data)" by (cases c)
  from assms Cons c obtain q where q: "myPlot_update time data (myPlot_init a xl yl ti lg) = Inr q"
    and rest: "myPlot_updates cs' q = Inr p"
    by (auto split: sum.splits)
  have "styled q" "\<not> init q"
    using myPlot_update_styled[of "myPlot_init a xl yl ti lg" q time data] q
    by (auto simp: state_after_def myPlot_init_fresh)
  then show ?thesis using myPlot_updates_styled rest by blast
qed

lemma new_Line2D_style:
  assumes "palettes_ok p" "new_Line2D time data i p = Some l"
  shows "color l = palette_colors ! (i mod 7) \<and> ls l = palette_styles ! (i mod 5)"
  using assms
  by (auto simp: new_Line2D_def nth_opt_def np_mod_def palettes_ok_def length_palettes
      split: Option.bind_splits if_splits)

text \<open>
  Claim C8.  The palettes have 7 colours and 5 styles.  In every state that a panel can
  reach, exceptions caught or not, the initialisation loop builds a line for every series
  \<open>i\<close> that the call supplies and the legend, if any, has a label for, and this line
  gets the colour \<open>i mod 7\<close> and the style \<open>i mod 5\<close> of the palettes, whatever the
  number of series and their values; the loop builds no line otherwise.  The first
  \<open>update\<close> of a panel, called with series that pair with the time list and that the
  legend covers, returns with one line for each series, and line \<open>j\<close> has the colour
  \<open>j mod 7\<close> and the style \<open>j mod 5\<close>.  And after calls of \<open>update\<close> that return,
  followed by one more call that may return or raise, line \<open>i\<close> of the panel has this
  colour and this style.
\<close>

theorem style_cycle:
  assumes "q = panel_run cs0 (myPlot_init a xl yl ti lg)"
    and "myPlot_updates cs (myPlot_init a xl yl ti lg) = Inr p"
    and "p' = state_after (myPlot_update time data p)"
  shows "length palette_colors = 7 \<and> length palette_styles = 5 \<and>
         (i < length data0 \<and> legend_covers lg (Suc i) \<longrightarrow>
            (\<exists>l. new_Line2D time0 data0 i q = Some l \<and>
                 color l = palette_colors ! (i mod 7) \<and> ls l = palette_styles ! (i mod 5))) \<and>
         (\<forall>l. new_Line2D time0 data0 i q = Some l \<longrightarrow>
              color l = palette_colors ! (i mod 7) \<and> ls l = palette_styles ! (i mod 5)) \<and>
         (legend_covers lg (length data1) \<and> drawable time1 data1 \<longrightarrow>
            (\<exists>p1. myPlot_update time1 data1 (myPlot_init a xl yl ti lg) = Inr p1 \<and>
                  length (line p1) = length data1 \<and>
                  (\<forall>j<length data1.
                      color (objs p1 ! (line p1 ! j)) = palette_colors ! (j mod 7) \<and>
                      ls (objs p1 ! (line p1 ! j)) = palette_styles ! (j mod 5)))) \<and>
         (i < length (line p') \<longrightarrow>
              color (objs p' ! (line p' ! i)) = palette_colors ! (i mod 7) \<and>
              ls (objs p' ! (line p' ! i)) = palette_styles ! (i mod 5))"
proof -
  let ?p0 = "myPlot_init a xl yl ti lg"
  have q: "palettes_ok q" "legend q = lg"
    using assms(1) by (simp_all add: panel_run_keeps myPlot_init_fresh)
  then have built: "\<forall>l. new_Line2D time0 data0 i q = Some l \<longrightarrow>
              color l = palette_colors ! (i mod 7) \<and> ls l = palette_styles ! (i mod 5)"
    using new_Line2D_style by blast
  have builds: "i < length data0 \<and> legend_covers lg (Suc i) \<longrightarrow>
            (\<exists>l. new_Line2D time0 data0 i q = Some l \<and>
                 color l = palette_colors ! (i mod 7) \<and> ls l = palette_styles ! (i mod 5))"
    using q new_Line2D_ok[of q i data0 time0] by (simp add: expected_line_def)
  have first: "legend_covers lg (length data1) \<and> drawable time1 data1 \<longrightarrow>
            (\<exists>p1. myPlot_update time1 data1 ?p0 = Inr p1 \<and>
                  length (line p1) = length data1 \<and>
                  (\<forall>j<length data1.
                      color (objs p1 ! (line p1 ! j)) = palette_colors ! (j mod 7) \<and>
                      ls (objs p1 ! (line p1 ! j)) = palette_styles ! (j mod 5)))"
  proof
    assume h: "legend_covers lg (length data1) \<and> drawable time1 data1"
    show "\<exists>p1. myPlot_update time1 data1 ?p0 = Inr p1 \<and>
                  length (line p1) = length data1 \<and>
                  (\<forall>j<length data1.
                      color (objs p1 ! (line p1 ! j)) = palette_colors ! (j mod 7) \<and>
                      ls (objs p1 ! (line p1 ! j)) = palette_styles ! (j mod 5))"
      using myPlot_update_first_ok[of ?p0 data1 time1] h
      by (simp add: myPlot_init_fresh after_first_def expected_line_def)
  qed
  have "styled p'"
    using myPlot_updates_fresh_styled[OF assms(2)] myPlot_update_styled(1)[OF _ assms(3)]
    by (auto simp: myPlot_init_fresh)
  then have "i < length (line p') \<longrightarrow>
              color (objs p' ! (line p' ! i)) = palette_colors ! (i mod 7) \<and>
              ls (objs p' ! (line p' ! i)) = palette_styles ! (i mod 5)"
    by (simp add: styled_def)
  then show ?thesis
    using built builds first length_palettes by blast
qed

text \<open>
  Eight series without a legend: the first update returns, and the eighth line, of index
  7, is blue and dashed, the colours having wrapped around once and the styles too; the
  sixth, of index 5, is yellow and solid.
\<close>

theorem style_cycle_witness:
  "(\<exists>l. new_Line2D [0] [[1], [2], [3], [4], [5], [6], [7], [8]] 7
           (myPlot_init blank_axes [] [] [] None) = Some l \<and> color l = ''b'' \<and> ls l = ''--'') \<and>
   (\<exists>p1. myPlot_update [0] [[1], [2], [3], [4], [5], [6], [7], [8]]
           (myPlot_init blank_axes [] [] [] None) = Inr p1 \<and>
         length (line p1) = 8 \<and>
         color (objs p1 ! (line p1 ! 7)) = ''b'' \<and> ls (objs p1 ! (line p1 ! 7)) = ''--'' \<and>
         color (objs p1 ! (line p1 ! 5)) = ''y'' \<and> ls (objs p1 ! (line p1 ! 5)) = ''-'')"
proof -
  let ?p0 = "myPlot_init blank_axes [] [] [] None"
  let ?d = "[[1], [2], [3], [4], [5], [6], [7], [8::real]]"
  have q: "?p0 = panel_run [] ?p0" by (simp add: panel_run_def)
  have run: "myPlot_updates [] ?p0 = Inr ?p0" by simp
  have cov: "legend_covers None (Suc 7)" "legend_covers None (length ?d)"
    by (simp_all add: legend_covers_def)
  have dr: "drawable [0] ?d" by (simp add: drawable_def broadcastable_def)
  from style_cycle[where i = 7 and time = "[0]" and data = ?d and ?time0.0 = "[0]"
      and ?data0.0 = ?d and ?time1.0 = "[0]" and ?data1.0 = ?d, OF q run refl] cov dr
  show ?thesis
    by (auto simp: palette_colors_def palette_styles_def)
qed

subsection \<open>Initialisation happens once\<close>







subsection \<open>A legend that is too short\<close>

text \<open>
  Claim C10, amended.  A panel is constructed (which cannot fail) with a legend of fewer
  labels than the series of its first \<open>update\<close>, and the series of the indices below
  \<open>len(legend)\<close> pair with the time list.  That call raises IndexError; the lines for
  the indices below \<open>len(legend)\<close> have been built and registered with the axes, the
  panel is still in its initialisation phase, and the pass of the loop at index
  \<open>len(legend)\<close> is the one that raises.
\<close>

theorem short_legend_fails:
  assumes "length lg < length data"
    and "\<forall>i<length lg. broadcastable (length time) (length (data ! i))"
  shows "\<exists>p'.
     myPlot_update time data (myPlot_init a xl yl ti (Some lg)) = Inl (IndexError, p') \<and>
     line p' = [0..<length lg] \<and>
     ax_lines (ax p') = ax_lines a @ [0..<length lg] \<and>
     objs p' = map (expected_line time data (Some lg)) [0..<length lg] \<and>
     init p' \<and>
     init_step time data (length lg) p' = Inl (IndexError, p')"
proof -
  let ?p0 = "myPlot_init a xl yl ti (Some lg)"
  have "myPlot_update time data ?p0 = Inl (IndexError, after_first ?p0 time data (length lg))"
    using assms by (intro myPlot_update_first_short) (simp_all add: myPlot_init_fresh)
  moreover have "init_step time data (length lg) (after_first ?p0 time data (length lg))
      = Inl (IndexError, after_first ?p0 time data (length lg))"
    by (intro init_step_short[where lg = lg]) (simp_all add: after_first_def myPlot_init_fresh)
  ultimately show ?thesis
    by (simp add: after_first_def myPlot_init_def)
qed

text \<open>One label, two series.\<close>

theorem short_legend_fails_witness:
  "\<exists>p'. myPlot_update [0] [[1], [2]] (myPlot_init blank_axes [] [] [] (Some [''a'']))
          = Inl (IndexError, p') \<and> line p' = [0] \<and> init p'"
  using short_legend_fails[of "[''a'']" "[[1], [2]]" "[0]" blank_axes "[]" "[]" "[]"]
  by (auto simp: upt_conv_Cons broadcastable_def)

text \<open>
  Claim C10 as stated fails where a series below index \<open>len(legend)\<close> does not pair
  with the time list: with one label, three times and two series of two values, the
  first update raises ValueError in \<open>add_line\<close> at index 0, not IndexError at index 1,
  and no line is registered with the axes.
\<close>

theorem short_legend_counterexample:
  "\<exists>p'. myPlot_update [0, 1, 2] [[1, 2], [3, 4]] (myPlot_init blank_axes [] [] [] (Some [''a'']))
          = Inl (ValueError, p') \<and> line p' = [0] \<and> ax_lines (ax p') = [] \<and> init p'"
  by (simp add: myPlot_update_def myPlot_init_def blank_axes_def init_step_def new_Line2D_def
     add_line_def line_ok_def broadcastable_def
     nth_opt_def np_mod_def palette_colors_def palette_styles_def upt_conv_Cons Let_def state_after_def)
section \<open>Properties of the plotter\<close>

subsection \<open>Histories\<close>

text \<open>
  The constructor gives every declared signal an empty history; \<open>update\<close> appends to the
  histories of the declared signals alone, before it turns to the panels.
\<close>

lemma fold_empty_history:
  "fold (\<lambda>signal h'. h'(signal \<mapsto> [])) sigs h = (\<lambda>s. if s \<in> set sigs then Some [] else h s)"
  by (induction sigs arbitrary: h) (auto simp: fun_eq_iff)

lemma fold_groups_history:
  "fold (\<lambda>plot h. fold (\<lambda>signal h'. h'(signal \<mapsto> [])) (signals plot) h) cfg h0
     = (\<lambda>s. if s \<in> declared cfg then Some [] else h0 s)"
  by (induction cfg arbitrary: h0) (auto simp: fun_eq_iff declared_def fold_empty_history)

lemma init_histories_eq:
  "init_histories cfg = (\<lambda>s. if s \<in> declared cfg then Some [] else None)"
  by (simp add: init_histories_def fold_groups_history)

lemma dom_record_value: "dom (record_value kv h) = dom h"
  by (auto simp: record_value_def split: option.splits)

lemma dom_fold_record_value: "dom (fold record_value kw h) = dom h"
  by (induction kw arbitrary: h) (simp_all add: dom_record_value)

lemma record_value_unknown: "h name = None \<Longrightarrow> record_value (name, v) h = h"
  by (simp add: record_value_def)

lemma fold_record_value_unknown:
  assumes "name \<notin> dom h"
  shows "fold record_value (kw1 @ (name, v) # kw2) h = fold record_value (kw1 @ kw2) h"
proof -
  have "name \<notin> dom (fold record_value kw1 h)"
    using assms by (simp add: dom_fold_record_value)
  then have "record_value (name, v) (fold record_value kw1 h) = fold record_value kw1 h"
    by (intro record_value_unknown) auto
  then show ?thesis by simp
qed

lemma fold_record_value_other:
  "s \<notin> fst ` set kw \<Longrightarrow> fold record_value kw h s = h s"
  by (induction kw arbitrary: h) (auto simp: record_value_def split: option.splits)

lemma fold_record_value_supplied:
  assumes "distinct (map fst kw)" "(s, v) \<in> set kw" "h s = Some vs"
  shows "fold record_value kw h s = Some (vs @ [v])"
  using assms
proof (induction kw arbitrary: h)
  case Nil
  then show ?case by simp
next
  case (Cons kv kw)
  show ?case
  proof (cases "kv = (s, v)")
    case True
    then have "s \<notin> fst ` set kw" using Cons.prems(1) by auto
    then have "fold record_value kw (record_value kv h) s = record_value kv h s"
      by (rule fold_record_value_other)
    moreover have "record_value kv h = h(s \<mapsto> vs @ [v])"
      using True Cons.prems(3) by (simp add: record_value_def)
    ultimately show ?thesis by simp
  next
    case False
    then have in_rest: "(s, v) \<in> set kw" using Cons.prems(2) by auto
    then have "fst kv \<noteq> s" using Cons.prems(1) by (auto simp: image_iff) 
    then have "record_value kv h s = Some vs"
      using Cons.prems(3) by (auto simp: record_value_def split: option.splits)
    then show ?thesis using Cons.IH[of "record_value kv h"] Cons.prems(1) in_rest by simp
  qed
qed

lemma update_plots_keeps:
  assumes "st' = state_after (update_plots ps st)"
  shows "time_history st' = time_history st \<and> data_histories st' = data_histories st \<and>
         plot_config st' = plot_config st \<and> num_plots st' = num_plots st \<and>
         length (handle st') = length (handle st)"
  using assms
proof (induction ps arbitrary: st)
  case Nil
  then show ?case by (simp add: state_after_def)
next
  case (Cons ip ps)
  obtain i plot where ip: "ip = (i, plot)" by (cases ip)
  show ?case
  proof (cases "nth_opt (handle st) i")
    case None
    then show ?thesis using Cons.prems ip by (simp add: state_after_def)
  next
    case (Some p)
    show ?thesis
    proof (cases "myPlot_update (time_history st) (plot_data (data_histories st) plot) p")
      case (Inl ep)
      then show ?thesis using Cons.prems ip Some
        by (cases ep) (simp add: state_after_def)
    next
      case (Inr p')
      then have "st' = state_after (update_plots ps (st\<lparr>handle := (handle st)[i := p']\<rparr>))"
        using Cons.prems ip Some by simp
      from Cons.IH[OF this] show ?thesis by simp
    qed
  qed
qed

lemma MotorDataPlotter_update_keeps:
  assumes "st' = state_after (MotorDataPlotter_update t kw st)"
  shows "time_history st' = time_history st @ [t] \<and>
         data_histories st' = fold record_value kw (data_histories st) \<and>
         plot_config st' = plot_config st \<and> num_plots st' = num_plots st \<and>
         length (handle st') = length (handle st)"
  using update_plots_keeps[OF assms[unfolded MotorDataPlotter_update_def Let_def]]
  by simp

lemma make_handles_length:
  "make_handles n res ps = Inr hs \<Longrightarrow> length hs = length ps"
  by (induction n res ps arbitrary: hs rule: make_handles.induct) (auto split: sum.splits)

lemma MotorDataPlotter_init_fields:
  assumes "MotorDataPlotter_init subplots arg = Inr st0"
  shows "time_history st0 = []" 
    and "data_histories st0 = (\<lambda>s. if s \<in> declared (plot_config st0) then Some [] else None)"
    and "length (handle st0) = length (plot_config st0)"
    and "plot_config st0 = (case arg of None \<Rightarrow> default_plot_config | Some c \<Rightarrow> c)"
  using assms
  by (auto simp: MotorDataPlotter_init_def Let_def init_histories_eq make_handles_length 
      split: sum.splits dest!: make_handles_length)

lemma run_updates_snoc:
  "run_updates (calls @ [c]) st = state_after (MotorDataPlotter_update (fst c) (snd c) (run_updates calls st))"
  by (simp add: run_updates_def)

lemma run_updates_keeps:
  "plot_config (run_updates calls st) = plot_config st \<and>
   dom (data_histories (run_updates calls st)) = dom (data_histories st) \<and>
   length (time_history (run_updates calls st)) = length (time_history st) + length calls \<and>
   length (handle (run_updates calls st)) = length (handle st)"
proof (induction calls rule: rev_induct)
  case Nil
  then show ?case by (simp add: run_updates_def)
next
  case (snoc c calls)
  show ?case
    using snoc MotorDataPlotter_update_keeps[OF run_updates_snoc[of calls c st]]
    by (simp add: dom_fold_record_value)
qed

lemma run_updates_history:
  assumes "\<forall>c \<in> set calls. distinct (map fst (snd c)) \<and> s \<in> fst ` set (snd c)"
    and "data_histories st s = Some vs"
  shows "\<exists>ws. data_histories (run_updates calls st) s = Some (vs @ ws) \<and> length ws = length calls"
  using assms
proof (induction calls rule: rev_induct)
  case Nil
  then show ?case by (simp add: run_updates_def)
next
  case (snoc c calls)
  then obtain ws where ws: "data_histories (run_updates calls st) s = Some (vs @ ws)"
      "length ws = length calls" by auto
  from snoc.prems(1) obtain v where v: "(s, v) \<in> set (snd c)" and d: "distinct (map fst (snd c))"
    by force
  have "data_histories (run_updates (calls @ [c]) st) s = Some ((vs @ ws) @ [v])"
    using MotorDataPlotter_update_keeps[OF run_updates_snoc[of calls c st]]
      fold_record_value_supplied[of "snd c" s v "data_histories (run_updates calls st)" "vs @ ws"]
      d v ws(1) by simp
  then show ?case using ws(2) by simp
qed

lemma plotter_A_init: "MotorDataPlotter_init plt_subplots (Some scenario_A) = Inr plotter_A"
  by (simp add: MotorDataPlotter_init_def scenario_A_def plt_subplots_def enumerate_eq_zip
      axes_at_def get_or_def plotter_A_def Let_def)

lemma plotter_A_fields:
  "plot_config plotter_A = scenario_A" "declared scenario_A = {''theta_ref'', ''theta''}"
  "data_histories plotter_A = (\<lambda>s. if s \<in> {''theta_ref'', ''theta''} then Some [] else None)"
  by (auto simp: plotter_A_def scenario_A_def declared_def init_histories_eq)

text \<open>
  Claim C4.  A plotter is constructed and receives \<open>M\<close> calls of \<open>update\<close>, each with
  keyword arguments of distinct names.  Whether or not the calls return, the time history
  then has \<open>M\<close> entries, and so has the history of every declared signal that each of the
  calls supplies.
\<close>

theorem history_lengths:
  assumes "MotorDataPlotter_init subplots arg = Inr st0"
    and "\<forall>c \<in> set calls. distinct (map fst (snd c))"
    and "s \<in> declared (plot_config st0)"
    and "\<forall>c \<in> set calls. s \<in> fst ` set (snd c)"
  shows "length (time_history (run_updates calls st0)) = length calls \<and>
         (\<exists>vs. data_histories (run_updates calls st0) s = Some vs \<and> length vs = length calls)"
proof -
  have "data_histories st0 s = Some []"
    using MotorDataPlotter_init_fields(2)[OF assms(1)] assms(3) by simp
  then have "\<exists>ws. data_histories (run_updates calls st0) s = Some ([] @ ws) \<and> length ws = length calls"
    using assms(2,4) by (intro run_updates_history) auto
  then show ?thesis
    using run_updates_keeps[of calls st0] MotorDataPlotter_init_fields(1)[OF assms(1)] by simp
qed

text \<open>Two calls on the plotter of scenario A, the keywords in different orders.\<close>

theorem history_lengths_witness:
  "length (time_history (run_updates
       [(0, [(''theta_ref'', 1), (''theta'', 2)]), (1, [(''theta'', 4), (''theta_ref'', 3)])] plotter_A)) = 2 \<and>
   (\<exists>vs. data_histories (run_updates
       [(0, [(''theta_ref'', 1), (''theta'', 2)]), (1, [(''theta'', 4), (''theta_ref'', 3)])] plotter_A) ''theta''
         = Some vs \<and> length vs = 2)"
  using history_lengths[OF plotter_A_init,
      of "[(0, [(''theta_ref'', 1), (''theta'', 2)]), (1, [(''theta'', 4), (''theta_ref'', 3)])]" "''theta''"]
  by (auto simp: plotter_A_fields)

text \<open>
  Claim C9.  A plotter is constructed and has received any calls.  A keyword argument
  whose name no group declares changes nothing in the next call of \<open>update\<close>: with or
  without it, at any place among the keywords, the call has the same outcome (the same
  state, and an exception only if there is one without it), and the histories are kept
  for the declared signals only.
\<close>

theorem unknown_signal_dropped:
  assumes "MotorDataPlotter_init subplots arg = Inr st0"
    and "st = run_updates calls st0"
    and "name \<notin> declared (plot_config st0)"
  shows "MotorDataPlotter_update t (kw1 @ (name, v) # kw2) st = MotorDataPlotter_update t (kw1 @ kw2) st \<and>
         dom (data_histories (state_after (MotorDataPlotter_update t (kw1 @ (name, v) # kw2) st)))
           = declared (plot_config st0)"
proof -
  have dom0: "dom (data_histories st0) = declared (plot_config st0)"
    using MotorDataPlotter_init_fields(2)[OF assms(1)] by (auto simp: dom_def)
  then have dom: "dom (data_histories st) = declared (plot_config st0)"
    using run_updates_keeps[of calls st0] assms(2) by simp
  then have "name \<notin> dom (data_histories st)" using assms(3) by simp
  then have "fold record_value (kw1 @ (name, v) # kw2) (data_histories st)
           = fold record_value (kw1 @ kw2) (data_histories st)"
    by (rule fold_record_value_unknown)
  then have "MotorDataPlotter_update t (kw1 @ (name, v) # kw2) st = MotorDataPlotter_update t (kw1 @ kw2) st"
    unfolding MotorDataPlotter_update_def Let_def by simp
  moreover have "dom (data_histories (state_after (MotorDataPlotter_update t (kw1 @ (name, v) # kw2) st)))
           = declared (plot_config st0)"
    using MotorDataPlotter_update_keeps[OF refl, of t "kw1 @ (name, v) # kw2" st] dom
    by (simp only: dom_fold_record_value)
  ultimately show ?thesis by simp
qed

text \<open>The undeclared \<open>speed\<close> among the keywords of scenario A.\<close>

theorem unknown_signal_dropped_witness:
  "MotorDataPlotter_update 0 [(''theta_ref'', 1), (''speed'', 7), (''theta'', 2)] plotter_A
     = MotorDataPlotter_update 0 [(''theta_ref'', 1), (''theta'', 2)] plotter_A \<and>
   dom (data_histories (state_after
        (MotorDataPlotter_update 0 [(''theta_ref'', 1), (''speed'', 7), (''theta'', 2)] plotter_A)))
     = {''theta_ref'', ''theta''}"
proof -
  have run: "plotter_A = run_updates [] plotter_A" by (simp add: run_updates_def)
  have unknown: "''speed'' \<notin> declared (plot_config plotter_A)"
    by (simp add: plotter_A_fields)
  have d: "declared (plot_config plotter_A) = {''theta_ref'', ''theta''}"
    by (simp add: plotter_A_fields)
  show ?thesis
    by (rule unknown_signal_dropped[OF plotter_A_init run unknown,
          of 0 "[(''theta_ref'', 1)]" 7 "[(''theta'', 2)]", unfolded d append.simps])
qed

subsection \<open>Panels inside a plotter\<close>





subsection \<open>The loop over the groups\<close>









lemma make_handles_fresh:
  assumes "make_handles n res ps = Inr hs" "g < length ps"
  shows "\<exists>a. hs ! g = myPlot_init a (get_or (xlabel (snd (ps ! g))) []) (get_or (ylabel (snd (ps ! g))) [])
                      (get_or (title (snd (ps ! g))) []) (cfg_legend (snd (ps ! g)))"
  using assms
proof (induction n res ps arbitrary: hs g rule: make_handles.induct)
  case (1 n res)
  then show ?case by simp
next
  case (2 n res i plot ps)
  from "2.prems"(1) obtain a hs' where a: "axes_at n res i = Inr a"
    and hs': "make_handles n res ps = Inr hs'"
    and hs: "hs = myPlot_init a (get_or (xlabel plot) []) (get_or (ylabel plot) [])
                      (get_or (title plot) []) (cfg_legend plot) # hs'"
    by (auto split: sum.splits)
  show ?case
  proof (cases g)
    case 0
    then show ?thesis using hs by auto
  next
    case (Suc g')
    then have "g' < length ps" using "2.prems"(2) by simp
    from "2.IH"[OF a hs' this] show ?thesis using Suc hs by simp
  qed
qed







subsection \<open>Calls that supply every declared signal\<close>







subsection \<open>Construction\<close>

lemma make_handles_fit:
  assumes "axes_fit n res" "\<forall>ip \<in> set ps. fst ip < n"
  shows "\<exists>hs. make_handles n res ps = Inr hs"
  using assms
proof (induction n res ps rule: make_handles.induct)
  case (1 n res)
  then show ?case by simp
next
  case (2 n res i plot ps)
  have "\<exists>a. axes_at n res i = Inr a"
    using "2.prems" by (auto simp: axes_at_def axes_fit_def nth_opt_def split: subplots_result.splits)
  then obtain a where a: "axes_at n res i = Inr a" by blast
  from "2.IH"[OF a] "2.prems" obtain hs where "make_handles n res ps = Inr hs" by auto
  then show ?case using a by simp
qed

lemma construction_fit:
  assumes "subplots (length cfg) = Inr res" "axes_fit (length cfg) res"
  shows "\<exists>st. MotorDataPlotter_init subplots (Some cfg) = Inr st \<and>
           plot_config st = cfg \<and> length (handle st) = length cfg \<and>
           (\<forall>g<length cfg. legend (handle st ! g) = cfg_legend (cfg ! g) \<and>
                            init (handle st ! g) \<and> line (handle st ! g) = [])"
proof -
  have "\<forall>ip \<in> set (enumerate 0 cfg). fst ip < length cfg"
    by (auto simp: in_set_enumerate_eq)
  from make_handles_fit[OF assms(2) this]
  obtain hs where hs: "make_handles (length cfg) res (enumerate 0 cfg) = Inr hs" by blast
  let ?st = "\<lparr>plot_config = cfg, num_plots = length cfg, time_history = [],
                        data_histories = init_histories cfg, handle = hs\<rparr>"
  have init: "MotorDataPlotter_init subplots (Some cfg) = Inr ?st"
    using assms(1) hs by (simp add: MotorDataPlotter_init_def)
  have "legend (hs ! g) = cfg_legend (cfg ! g) \<and> init (hs ! g) \<and> line (hs ! g) = []"
    if "g < length cfg" for g
  proof -
    have "g < length (enumerate 0 cfg)" using that by simp
    from make_handles_fresh[OF hs this] that show ?thesis
      by (auto simp: nth_enumerate_eq myPlot_init_fresh)
  qed
  then show ?thesis
    using init make_handles_length[OF hs] by simp
qed

lemma plt_subplots_fit: "cfg \<noteq> [] \<Longrightarrow> \<exists>res. plt_subplots (length cfg) = Inr res \<and> axes_fit (length cfg) res"
  by (simp add: plt_subplots_def axes_fit_def)

text \<open>
  Claim C3, amended.  The constructor itself checks nothing about the groups; what it
  rejects is what the \<open>subplots\<close> call of the plotting library rejects.  Constructing
  with zero groups is rejected: \<open>plt.subplots(0, 1, ...)\<close> raises ValueError, and an
  exception of \<open>subplots\<close> leaves the constructor as it is.  With one group or more,
  construction succeeds, whatever the signals and the legends: the configuration is
  stored as given and each panel keeps the legend of its group, unchecked, with no line
  built yet.  The same holds for any \<open>subplots\<close> that returns the axes for the groups
  (one \<open>Axes\<close> for one group, an array of at least as many otherwise).
\<close>

theorem construction_unchecked:
  "MotorDataPlotter_init plt_subplots (Some []) = Inl ValueError \<and>
   (\<forall>e. subplots (length cfg) = Inl e \<longrightarrow> MotorDataPlotter_init subplots (Some cfg) = Inl e) \<and>
   (cfg \<noteq> [] \<longrightarrow>
      (\<exists>st. MotorDataPlotter_init plt_subplots (Some cfg) = Inr st \<and>
           plot_config st = cfg \<and> length (handle st) = length cfg \<and>
           (\<forall>g<length cfg. legend (handle st ! g) = cfg_legend (cfg ! g) \<and>
                            init (handle st ! g) \<and> line (handle st ! g) = []))) \<and>
   (\<forall>res. subplots (length cfg) = Inr res \<and> axes_fit (length cfg) res \<longrightarrow>
      (\<exists>st. MotorDataPlotter_init subplots (Some cfg) = Inr st \<and>
           plot_config st = cfg \<and> length (handle st) = length cfg \<and>
           (\<forall>g<length cfg. legend (handle st ! g) = cfg_legend (cfg ! g) \<and>
                            init (handle st ! g) \<and> line (handle st ! g) = [])))"
proof -
  have zero: "MotorDataPlotter_init plt_subplots (Some []) = Inl ValueError"
    by (simp add: MotorDataPlotter_init_def plt_subplots_def)
  have fails: "\<forall>e. subplots (length cfg) = Inl e \<longrightarrow> MotorDataPlotter_init subplots (Some cfg) = Inl e"
    by (simp add: MotorDataPlotter_init_def)
  have lib: "cfg \<noteq> [] \<longrightarrow>
      (\<exists>st. MotorDataPlotter_init plt_subplots (Some cfg) = Inr st \<and>
           plot_config st = cfg \<and> length (handle st) = length cfg \<and>
           (\<forall>g<length cfg. legend (handle st ! g) = cfg_legend (cfg ! g) \<and>
                            init (handle st ! g) \<and> line (handle st ! g) = []))"
    using plt_subplots_fit[of cfg] construction_fit[of plt_subplots cfg] by blast
  have any: "\<forall>res. subplots (length cfg) = Inr res \<and> axes_fit (length cfg) res \<longrightarrow>
      (\<exists>st. MotorDataPlotter_init subplots (Some cfg) = Inr st \<and>
           plot_config st = cfg \<and> length (handle st) = length cfg \<and>
           (\<forall>g<length cfg. legend (handle st ! g) = cfg_legend (cfg ! g) \<and>
                            init (handle st ! g) \<and> line (handle st ! g) = []))"
    using construction_fit[of subplots cfg] by blast
  show ?thesis using zero fails lib any by blast
qed

text \<open>Scenario C: two signals, three legend labels; and no group at all.\<close>

theorem construction_unchecked_witness:
  "(\<exists>st. MotorDataPlotter_init plt_subplots (Some scenario_C) = Inr st \<and>
        legend (handle st ! 0) = Some [''Reference'', ''Actual'', ''Extra''] \<and>
        signals (plot_config st ! 0) = [''theta_ref'', ''theta'']) \<and>
   MotorDataPlotter_init plt_subplots (Some []) = Inl ValueError"
  using construction_unchecked[where cfg = scenario_C and subplots = plt_subplots]
  by (auto simp: scenario_C_def)

text \<open>
  Claim C3 as stated fails: the group of scenario C, with two signals and three legend
  labels, is accepted by the constructor, and the first \<open>update\<close> returns as well.
\<close>

theorem construction_counterexample:
  "\<not> isl (MotorDataPlotter_init plt_subplots (Some scenario_C)) \<and>
   \<not> isl (MotorDataPlotter_update 0 [(''theta_ref'', 1), (''theta'', 2)]
            (projr (MotorDataPlotter_init plt_subplots (Some scenario_C))))"
  by (simp add: MotorDataPlotter_init_def scenario_C_def plt_subplots_def enumerate_eq_zip axes_at_def
    get_or_def init_histories_def MotorDataPlotter_update_def record_value_def nth_opt_def plot_data_def
    myPlot_update_def myPlot_init_def init_step_def new_Line2D_def np_mod_def palette_colors_def palette_styles_def
    add_line_def relim_def line_ok_def broadcastable_def
    blank_axes_def Let_def upt_conv_Cons)
section \<open>Properties of the scene renderer\<close>

subsection \<open>The first call and the later calls\<close>

text \<open>
  The first \<open>update\<close> builds the nineteen artists of the scene; every later one finds
  the rotor bars and the reference mark and sets their data.
\<close>

lemma title_fields:
  "title_field sym_theta (motor_title theta omega torque) = Some theta"
  "title_field sym_omega (motor_title theta omega torque) = omega"
  "title_field sym_tau (motor_title theta omega torque) = (if omega = None then None else torque)"
  by (auto simp: motor_title_def sym_theta_def sym_omega_def sym_tau_def ends_with_def)

lemma float_bound: "(4::real) < 2 ^ 1024 - 2 ^ 970"
proof -
  have a: "(2::real) ^ 1024 = 2 ^ 970 * 2 ^ 54" using power_add[of "2::real" 970 54] by simp
  have b: "(4::real) < 2 ^ 970" using power_strict_increasing[of 2 970 "2::real"] by simp
  have "(2::real) ^ 1 \<le> 2 ^ 54" by (rule power_increasing) simp_all
  then have "(2::real) ^ 970 * 2 \<le> 2 ^ 970 * 2 ^ 54"
    by (intro mult_left_mono) simp_all
  then have "(2::real) ^ 1024 - 2 ^ 970 \<ge> 2 ^ 970" using a by linarith
  then show ?thesis using b by linarith
qed

lemma float_finite_small: "\<bar>x\<bar> \<le> 4 \<Longrightarrow> float_finite x"
  unfolding float_finite_def using float_bound by linarith

lemma float_finite_large: "\<not> float_finite (1.5 * 2 ^ 1024)"
proof -
  have p: "(0::real) < 2 ^ 1024" "(0::real) < 2 ^ 970" by simp_all
  then have "(2::real) ^ 1024 - 2 ^ 970 \<le> 1.5 * 2 ^ 1024" by linarith
  moreover have "\<bar>1.5 * (2::real) ^ 1024\<bar> = 1.5 * 2 ^ 1024"
    using p(1) by (intro abs_of_nonneg) linarith
  ultimately show ?thesis unfolding float_finite_def by linarith
qed

lemma init_cases:
  "ACMotorAnimation_init s r h =
     (if float_finite (1.5 * s) then
        Inr \<lparr>flagInit = True, stator_radius = s, rotor_radius = r, shaft_radius = h,
             anim_handle = [], rotor_bar_handles = None, ref_mark = None, artists = [],
             view_limit = 1.5 * s, scene_title = [Lit ''AC Motor Visualization''],
             scene_patches = [], scene_lines = []\<rparr>
      else Inl ValueError)"
  by (simp add: ACMotorAnimation_init_def Let_def)

lemma first_update:
  assumes "ACMotorAnimation_init s r h = Inr a0"
  shows "\<exists>a'. ACMotorAnimation_update theta omega torque a0 = Inr a' \<and>
     live a' \<and> ref_mark a' = Some 18 \<and> 
     artists a' ! 18 = Line [0, h * cos theta] [0, h * sin theta] ''r-'' 3 \<and>
     length (artists a') = 19 \<and>
     stator_radius a' = s \<and> rotor_radius a' = r \<and> shaft_radius a' = h \<and> view_limit a' = 1.5 * s \<and>
     scene_title a' = motor_title theta omega torque"
proof -
  have "a0 = \<lparr>flagInit = True, stator_radius = s, rotor_radius = r, shaft_radius = h,
             anim_handle = [], rotor_bar_handles = None, ref_mark = None, artists = [],
             view_limit = 1.5 * s, scene_title = [Lit ''AC Motor Visualization''],
             scene_patches = [], scene_lines = []\<rparr>"
    using assms by (simp add: init_cases split: if_splits)
  then show ?thesis
    by (simp add: ACMotorAnimation_update_def drawStator_def drawRotor_def
       drawShaft_def append_patch_def add_patch_def ax_plot_def coil_step_def bar_create_def
       bar_update_def set_data_def nth_opt_def get_or_def Let_def upt_conv_Cons enumerate_eq_zip
       live_def is_Line_def)
qed

lemma init_fields:
  assumes "ACMotorAnimation_init s r h = Inr a0"
  shows "stator_radius a0 = s" "rotor_radius a0 = r" "shaft_radius a0 = h"
    "view_limit a0 = 1.5 * s" "flagInit a0"
  using assms by (auto simp: init_cases split: if_splits)

lemma is_Line_Line: "is_Line (Line x y f w)"
  by (simp add: is_Line_def)

lemma is_Line_update:
  "r < length arts \<Longrightarrow> is_Line (arts ! r) \<Longrightarrow> is_Line (arts[m := Line x y f w] ! r)"
  by (cases "m = r") (simp_all add: is_Line_Line)

lemma set_data_line:
  assumes "r < length (artists a)" "is_Line (artists a ! r)"
  shows "\<exists>f w. set_data r x y a = Inr (a\<lparr>artists := (artists a)[r := Line x y f w]\<rparr>)"
  using assms by (auto simp: set_data_def nth_opt_def is_Line_def split: artist.splits)

lemma bars_loop_live:
  assumes "\<forall>ih \<in> set ihs. snd ih < length (artists a) \<and> is_Line (artists a ! snd ih)"
  shows "\<exists>arts. bars_loop theta ihs a = Inr (a\<lparr>artists := arts\<rparr>) \<and>
           length arts = length (artists a) \<and>
           (\<forall>r<length arts. is_Line (artists a ! r) \<longrightarrow> is_Line (arts ! r))"
  using assms
proof (induction ihs arbitrary: a)
  case Nil
  have "a\<lparr>artists := artists a\<rparr> = a" by simp
  then show ?case by (intro exI[of _ "artists a"]) simp
next
  case (Cons ih ihs)
  let ?x = "[(shaft_radius a + 0.05) * cos (theta + real (fst ih) * 2 * pi / 8),
             (rotor_radius a - 0.05) * cos (theta + real (fst ih) * 2 * pi / 8)]"
  let ?y = "[(shaft_radius a + 0.05) * sin (theta + real (fst ih) * 2 * pi / 8),
             (rotor_radius a - 0.05) * sin (theta + real (fst ih) * 2 * pi / 8)]"
  from Cons.prems have r: "snd ih < length (artists a)" "is_Line (artists a ! snd ih)"
    by auto
  from set_data_line[OF r, of ?x ?y] obtain f w where
    step: "bar_update theta ih a = Inr (a\<lparr>artists := (artists a)[snd ih := Line ?x ?y f w]\<rparr>)"
    by (auto simp: bar_update_def Let_def)
  let ?a1 = "a\<lparr>artists := (artists a)[snd ih := Line ?x ?y f w]\<rparr>"
  have keep: "\<forall>r<length (artists a). is_Line (artists a ! r) \<longrightarrow>
        is_Line (artists ?a1 ! r)"
    by (auto simp: is_Line_update)
  then have "\<forall>ih \<in> set ihs. snd ih < length (artists ?a1) \<and> is_Line (artists ?a1 ! snd ih)"
    using Cons.prems by auto
  from Cons.IH[OF this] obtain arts where arts:
    "bars_loop theta ihs ?a1 = Inr (?a1\<lparr>artists := arts\<rparr>)"
    "length arts = length (artists ?a1)"
    "\<forall>r<length arts. is_Line (artists ?a1 ! r) \<longrightarrow> is_Line (arts ! r)"
    by blast
  show ?case
    using step arts keep by (intro exI[of _ arts]) auto
qed

lemma live_update:
  assumes "live a"
  shows "\<exists>a' arts mark. ACMotorAnimation_update theta omega torque a = Inr a' \<and>
     a' = a\<lparr>artists := arts, scene_title := motor_title theta omega torque\<rparr> \<and>
     length arts = length (artists a) \<and> live a' \<and> ref_mark a = Some mark \<and>
     line_data (arts ! mark) = Some ([0, shaft_radius a * cos theta], [0, shaft_radius a * sin theta])"
proof -
  from assms obtain bars mark where bm: "\<not> flagInit a" "rotor_bar_handles a = Some bars"
    "ref_mark a = Some mark"
    "\<forall>r \<in> set (mark # bars). r < length (artists a) \<and> is_Line (artists a ! r)"
    by (auto simp: live_def split: option.splits)
  have "\<forall>ih \<in> set (enumerate 0 bars). snd ih < length (artists a) \<and>
           is_Line (artists a ! snd ih)"
    using bm(4) by (auto simp: in_set_enumerate_eq)
  from bars_loop_live[OF this, of theta] obtain arts1 where arts1:
    "bars_loop theta (enumerate 0 bars) a = Inr (a\<lparr>artists := arts1\<rparr>)"
    "length arts1 = length (artists a)"
    "\<forall>r<length arts1. is_Line (artists a ! r) \<longrightarrow> is_Line (arts1 ! r)"
    by blast
  let ?a1 = "a\<lparr>artists := arts1\<rparr>"
  have rotor: "drawRotor theta (drawStator a) = Inr ?a1"
    using bm(1,2) arts1(1) by (simp add: drawStator_def drawRotor_def Let_def)
  have m: "mark < length (artists ?a1)" "is_Line (artists ?a1 ! mark)"
    using bm(4) arts1(2,3) by auto
  let ?x = "[0, shaft_radius a * cos theta]"
  let ?y = "[0, shaft_radius a * sin theta]"
  from set_data_line[OF m, of ?x ?y] obtain f w where
    "set_data mark ?x ?y ?a1 = Inr (?a1\<lparr>artists := (artists ?a1)[mark := Line ?x ?y f w]\<rparr>)"
    by blast
  then have shaft: "drawShaft theta ?a1 = Inr (a\<lparr>artists := arts1[mark := Line ?x ?y f w]\<rparr>)"
    using bm(1,3) by (simp add: drawShaft_def Let_def)
  let ?arts = "arts1[mark := Line ?x ?y f w]"
  let ?a' = "a\<lparr>artists := ?arts, scene_title := motor_title theta omega torque\<rparr>"
  have upd: "ACMotorAnimation_update theta omega torque a = Inr ?a'"
    using rotor shaft bm(1) by (simp add: ACMotorAnimation_update_def Let_def)
  have "\<forall>r \<in> set (mark # bars). r < length ?arts \<and> is_Line (?arts ! r)"
    using bm(4) arts1(2,3) by (auto simp: is_Line_update is_Line_Line)
  then have "live ?a'"
    using bm(1,2,3) by (simp add: live_def is_Line_Line)
  moreover have "line_data (?arts ! mark) = Some (?x, ?y)"
    using m(1) by (simp add: line_data_def)
  ultimately show ?thesis
    using upd arts1(2) bm(3) by (intro exI[of _ ?a'] exI[of _ ?arts] exI[of _ mark]) simp
qed

lemma anim_updates_snoc:
  "anim_updates (calls @ [c]) a =
     state_after (ACMotorAnimation_update (fst c) (fst (snd c)) (snd (snd c)) (anim_updates calls a))"
  by (simp add: anim_updates_def)

lemma anim_updates_live:
  assumes "ACMotorAnimation_init s r h = Inr a0"
  shows "(calls = [] \<or> live (anim_updates calls a0)) \<and>
   stator_radius (anim_updates calls a0) = s \<and>
   rotor_radius (anim_updates calls a0) = r \<and>
   shaft_radius (anim_updates calls a0) = h \<and>
   view_limit (anim_updates calls a0) = 1.5 * s"
proof (induction calls rule: rev_induct)
  case Nil
  then show ?case using init_fields[OF assms] by (simp add: anim_updates_def)
next
  case (snoc c calls)
  let ?a = "anim_updates calls a0"
  show ?case
  proof (cases "calls = []")
    case True
    then have a: "?a = a0" by (simp add: anim_updates_def)
    from first_update[OF assms, of "fst c" "fst (snd c)" "snd (snd c)"] show ?thesis
      unfolding anim_updates_snoc a by (auto simp: state_after_def)
  next
    case False
    then have "live ?a" using snoc by simp
    from live_update[OF this, of "fst c" "fst (snd c)" "snd (snd c)"] snoc show ?thesis
      unfolding anim_updates_snoc by (auto simp: state_after_def)
  qed
qed

subsection \<open>The claims\<close>

text \<open>
  Claim C7.  A renderer is constructed, with any radii, and has received any calls of
  \<open>update\<close>.  The next call, with the angle \<open>theta\<close>, returns, and the reference mark
  on the shaft then is the segment from the origin to
  \<open>(shaft_radius * cos theta, shaft_radius * sin theta)\<close>.
\<close>

theorem reference_mark:
  assumes "ACMotorAnimation_init s r h = Inr a0"
  shows "\<exists>a' mark. ACMotorAnimation_update theta omega torque (anim_updates calls a0) = Inr a' \<and>
      ref_mark a' = Some mark \<and> mark < length (artists a') \<and>
      line_data (artists a' ! mark) = Some ([0, h * cos theta], [0, h * sin theta])"
proof (cases "calls = []")
  case True
  then have "anim_updates calls a0 = a0"
    by (simp add: anim_updates_def)
  then show ?thesis
    using first_update[OF assms, of theta omega torque] by (auto simp: line_data_def)
next
  case False
  let ?a = "anim_updates calls a0"
  have "live ?a" "shaft_radius ?a = h" using anim_updates_live[OF assms, of calls] False by auto
  from live_update[OF this(1), of theta omega torque] this(2) obtain a' arts mark where
    "ACMotorAnimation_update theta omega torque ?a = Inr a'"
    "a' = ?a\<lparr>artists := arts, scene_title := motor_title theta omega torque\<rparr>"
    "live a'" "ref_mark ?a = Some mark"
    "line_data (arts ! mark) = Some ([0, h * cos theta], [0, h * sin theta])"
    by auto
  then show ?thesis by (auto simp: live_def split: option.splits)
qed

text \<open>
  Scenario B: with the radii 1.0, 0.6 and 0.15, \<open>update(0)\<close> puts the mark from
  \<open>(0, 0)\<close> to \<open>(0.15, 0)\<close>, and \<open>update(pi / 2)\<close> after it from \<open>(0, 0)\<close> to
  \<open>(0, 0.15)\<close>.
\<close>

theorem reference_mark_witness:
  "\<exists>a0 a1 a2 m1 m2.
      ACMotorAnimation_init 1 0.6 0.15 = Inr a0 \<and>
      ACMotorAnimation_update 0 None None a0 = Inr a1 \<and>
      ref_mark a1 = Some m1 \<and> line_data (artists a1 ! m1) = Some ([0, 0.15], [0, 0]) \<and>
      ACMotorAnimation_update (pi / 2) None None a1 = Inr a2 \<and>
      ref_mark a2 = Some m2 \<and> line_data (artists a2 ! m2) = Some ([0, 0], [0, 0.15])"
proof -
  obtain a0 where a0: "ACMotorAnimation_init 1 0.6 0.15 = Inr a0"
    by (simp add: init_cases float_finite_small)
  from reference_mark[OF a0, of 0 None None "[]"] obtain a1 m1 where
    a1: "ACMotorAnimation_update 0 None None a0 = Inr a1" "ref_mark a1 = Some m1"
      "line_data (artists a1 ! m1) = Some ([0, 0.15], [0, 0])"
    by (auto simp: anim_updates_def)
  have run: "anim_updates [(0, None, None)] a0 = a1"
    using a1(1) by (simp add: anim_updates_def state_after_def)
  from reference_mark[OF a0, of "pi / 2" None None "[(0, None, None)]"] obtain a2 m2 where
    "ACMotorAnimation_update (pi / 2) None None a1 = Inr a2" "ref_mark a2 = Some m2"
      "line_data (artists a2 ! m2) = Some ([0, 0], [0, 0.15])"
    unfolding run by auto
  with a0 a1 show ?thesis by blast
qed

text \<open>
  Claim C5.  A renderer is constructed, with any radii, and has received any calls of
  \<open>update\<close>.  The next call returns, and its title shows \<open>theta\<close> always, \<open>omega\<close>
  exactly when it is given, and the torque exactly when both the torque and \<open>omega\<close>
  are given.
\<close>

theorem title_asymmetry:
  assumes "ACMotorAnimation_init s r h = Inr a0"
  shows "\<exists>a'. ACMotorAnimation_update theta omega torque (anim_updates calls a0) = Inr a' \<and>
      title_field sym_theta (scene_title a') = Some theta \<and>
      title_field sym_omega (scene_title a') = omega \<and>
      title_field sym_tau (scene_title a') = (if omega = None then None else torque)"
proof (cases "calls = []")
  case True
  then have "anim_updates calls a0 = a0"
    by (simp add: anim_updates_def)
  then show ?thesis
    using first_update[OF assms, of theta omega torque] by (auto simp: title_fields)
next
  case False
  let ?a = "anim_updates calls a0"
  have "live ?a" using anim_updates_live[OF assms, of calls] False by auto
  from live_update[OF this, of theta omega torque] show ?thesis
    by (auto simp: title_fields)
qed

text \<open>\<open>update(theta = 1.0, omega = None, torque = 5.0)\<close>: the title shows \<open>theta\<close> only.\<close>

theorem title_asymmetry_witness:
  "\<exists>a0 a'. ACMotorAnimation_init 1 0.6 0.15 = Inr a0 \<and>
      ACMotorAnimation_update 1 None (Some 5) a0 = Inr a' \<and>
      title_field sym_theta (scene_title a') = Some 1 \<and>
      title_field sym_omega (scene_title a') = None \<and>
      title_field sym_tau (scene_title a') = None"
proof -
  obtain a0 where a0: "ACMotorAnimation_init 1 0.6 0.15 = Inr a0"
    by (simp add: init_cases float_finite_small)
  from title_asymmetry[OF a0, of 1 None "Some 5" "[]"] a0 show ?thesis
    by (auto simp: anim_updates_def)
qed

text \<open>
  Claim C6, amended.  The constructor compares the radii with nothing, neither with one
  another nor with zero.  It raises exactly where \<open>1.5 * stator_radius\<close> is not a
  finite float, and then the ValueError of \<open>plt.axis\<close>.  Everywhere else, for radii in
  any order and of any sign, it yields a renderer that holds them as given, with the
  view limit \<open>1.5 * stator_radius\<close> and the initialisation still to come, and the first
  \<open>update\<close> on it returns.
\<close>

theorem radii_unchecked:
  "(float_finite (1.5 * s) \<longrightarrow>
      (\<exists>a0. ACMotorAnimation_init s r h = Inr a0 \<and>
            stator_radius a0 = s \<and> rotor_radius a0 = r \<and> shaft_radius a0 = h \<and>
            view_limit a0 = 1.5 * s \<and> flagInit a0 \<and>
            \<not> isl (ACMotorAnimation_update theta omega torque a0))) \<and>
   (\<not> float_finite (1.5 * s) \<longrightarrow> ACMotorAnimation_init s r h = Inl ValueError)"
proof (cases "float_finite (1.5 * s)")
  case True
  then obtain a0 where a0: "ACMotorAnimation_init s r h = Inr a0"
    by (simp add: init_cases)
  from first_update[OF a0, of theta omega torque] init_fields[OF a0] a0 True
  show ?thesis by auto
next
  case False
  then show ?thesis by (simp add: init_cases)
qed

text \<open>
  The radii of scenario B are accepted; a stator radius of \<open>2 ^ 1024\<close> is beyond the
  floats, and so is the limit.
\<close>

theorem radii_unchecked_witness:
  "(\<exists>a0. ACMotorAnimation_init 1 0.6 0.15 = Inr a0 \<and> view_limit a0 = 1.5 \<and>
         \<not> isl (ACMotorAnimation_update 0 None None a0)) \<and>
   ACMotorAnimation_init (2 ^ 1024) 0.6 0.15 = Inl ValueError"
  using radii_unchecked[of 1 "0.6" "0.15" 0 None None]
        radii_unchecked[of "2 ^ 1024" "0.6" "0.15" 0 None None]
        float_finite_small[of "1.5 * 1"] float_finite_large
  by auto

text \<open>
  Claim C6 as stated fails: the radii 0.5, 0.6 and -1 are neither ordered nor positive,
  yet the constructor returns a renderer that keeps them, and the renderer takes its
  first \<open>update\<close>.
\<close>

theorem radii_counterexample:
  "\<not> ((0.5::real) > 0.6 \<and> (0.6::real) > - 1 \<and> (- 1::real) > 0) \<and>
   (\<exists>a0. ACMotorAnimation_init 0.5 0.6 (- 1) = Inr a0 \<and> shaft_radius a0 = - 1 \<and>
         \<not> isl (ACMotorAnimation_update 0 None None a0))"
proof -
  obtain a0 where a0: "ACMotorAnimation_init 0.5 0.6 (- 1) = Inr a0"
    by (simp add: init_cases float_finite_small)
  from first_update[OF a0, of 0 None None] init_fields[OF a0] a0 show ?thesis
    by auto
qed

end
